theory Spec2Isabelle
  imports Main "HOL-Library.Multiset"
begin

section \<open>JavaScript values\<close>

text \<open>
  Response bodies are JSON-serialisable JavaScript values.  An object is the list of its
  properties in insertion order, an array the list of its elements.
\<close>

datatype json =
    JNull
  | JBool bool
  | JNum int
  | JStr string
  | JArr "json list"
  | JObj "(string \<times> json) list"

text \<open>
  JavaScript's ToBoolean, as used by \<^verbatim>\<open>if (data)\<close>, \<^verbatim>\<open>!x\<close> and
  \<^verbatim>\<open>x || null\<close>: \<^verbatim>\<open>null\<close>, \<^verbatim>\<open>false\<close>, \<^verbatim>\<open>0\<close> and the empty string are
  falsy, every object and array is truthy.
\<close>

fun truthy :: "json \<Rightarrow> bool" where
  "truthy JNull = False"
| "truthy (JBool b) = b"
| "truthy (JNum n) = (n \<noteq> 0)"
| "truthy (JStr s) = (s \<noteq> [])"
| "truthy (JArr xs) = True"
| "truthy (JObj ps) = True"

subsection \<open>Strings\<close>

text \<open>\<^verbatim>\<open>String.prototype.includes\<close>: does \<open>p\<close> occur in \<open>s\<close> as a contiguous run.\<close>

fun starts_with :: "'a list \<Rightarrow> 'a list \<Rightarrow> bool" where
  "starts_with s [] = True"
| "starts_with [] (p # ps) = False"
| "starts_with (x # xs) (p # ps) = (x = p \<and> starts_with xs ps)"

fun includes_str :: "'a list \<Rightarrow> 'a list \<Rightarrow> bool" where
  "includes_str [] p = (p = [])"
| "includes_str (x # xs) p = (starts_with (x # xs) p \<or> includes_str xs p)"

text \<open>Decimal rendering of a non-negative integer inside a template string.\<close>

definition digit_char :: "nat \<Rightarrow> char" where
  "digit_char n = ''0123456789'' ! n"

fun string_of_nat :: "nat \<Rightarrow> string" where
  "string_of_nat n =
     (if n < 10 then [digit_char n]
      else string_of_nat (n div 10) @ [digit_char (n mod 10)])"

declare string_of_nat.simps [simp del]

text \<open>
  A number in a template string: JavaScript prints a negative integer with a leading
  minus sign.
\<close>

definition string_of_int :: "int \<Rightarrow> string" where
  "string_of_int i =
     (if i < 0 then CHR ''-'' # string_of_nat (nat (- i)) else string_of_nat (nat i))"

subsection \<open>The built-in Map\<close>

text \<open>
  A JavaScript \<^verbatim>\<open>Map\<close> iterates in insertion order, so it is the list of its
  key/value pairs, oldest insertion first.  \<^verbatim>\<open>Map.prototype.set\<close> on a key that is
  present replaces the value where it stands; on a new key it appends.
\<close>

type_synonym ('k, 'v) js_map = "('k \<times> 'v) list"

fun map_get :: "'k \<Rightarrow> ('k, 'v) js_map \<Rightarrow> 'v option" where
  "map_get k [] = None"
| "map_get k ((k', v) # m) = (if k' = k then Some v else map_get k m)"

fun map_set :: "'k \<Rightarrow> 'v \<Rightarrow> ('k, 'v) js_map \<Rightarrow> ('k, 'v) js_map" where
  "map_set k v [] = [(k, v)]"
| "map_set k v ((k', v') # m) =
     (if k' = k then (k, v) # m else (k', v') # map_set k v m)"

fun map_delete :: "'k \<Rightarrow> ('k, 'v) js_map \<Rightarrow> ('k, 'v) js_map" where
  "map_delete k [] = []"
| "map_delete k ((k', v) # m) =
     (if k' = k then map_delete k m else (k', v) # map_delete k m)"

definition map_size :: "('k, 'v) js_map \<Rightarrow> nat" where
  "map_size m = length m"

text \<open>\<^verbatim>\<open>m.keys()\<close>: the keys in insertion order.\<close>

definition map_keys :: "('k, 'v) js_map \<Rightarrow> 'k list" where
  "map_keys m = map fst m"

text \<open>
  \<^verbatim>\<open>m.delete(m.keys().next().value)\<close>: on an empty map the iterator yields
  \<^verbatim>\<open>undefined\<close>, which is no key of the map, and nothing is deleted.
\<close>

definition delete_first_key :: "('k, 'v) js_map \<Rightarrow> ('k, 'v) js_map" where
  "delete_first_key m = (case map_keys m of [] \<Rightarrow> m | firstKey # _ \<Rightarrow> map_delete firstKey m)"

section \<open>The response cache (src/middleware/cache.js, tiered variant)\<close>

record item =
  data :: json
  etag :: string
  expiresAt :: int
  createdAt :: int

text \<open>
  The cache object.  \<open>hash\<close> stands for the library call
  \<^verbatim>\<open>crypto.createHash('md5').update(JSON.stringify(data)).digest('hex')\<close> of
  \<^verbatim>\<open>generateETag\<close>; it is carried by the object and never changes.  Times and TTLs
  are milliseconds.
\<close>

record InMemoryCache =
  cache :: "(string, item) js_map"
  ttl :: int
  maxSize :: nat
  hits :: nat
  misses :: nat
  hash :: "json \<Rightarrow> string"

record ttl_tiers =
  metadata :: int
  geojson :: int
  municipalities :: int
  health :: int
  default_tier :: int

text \<open>The constructor assigns the same tier table to every instance.\<close>

definition ttlSettings :: ttl_tiers where
  "ttlSettings =
     \<lparr> metadata = 7 * 24 * 60 * 60 * 1000,
       geojson = 30 * 24 * 60 * 60 * 1000,
       municipalities = 7 * 24 * 60 * 60 * 1000,
       health = 60 * 60 * 1000,
       default_tier = 3600000 \<rparr>"

text \<open>
  \<^verbatim>\<open>new InMemoryCache(options)\<close>: \<^verbatim>\<open>options.ttl || 3600000\<close> and
  \<^verbatim>\<open>options.maxSize || 100\<close> take the default when the option is missing or 0.
\<close>

definition new_InMemoryCache :: "int option \<Rightarrow> nat option \<Rightarrow> (json \<Rightarrow> string) \<Rightarrow> InMemoryCache" where
  "new_InMemoryCache opt_ttl opt_maxSize h =
     \<lparr> cache = [],
       ttl = (case opt_ttl of None \<Rightarrow> 3600000 | Some t \<Rightarrow> if t = 0 then 3600000 else t),
       maxSize = (case opt_maxSize of None \<Rightarrow> 100 | Some m \<Rightarrow> if m = 0 then 100 else m),
       hits = 0,
       misses = 0,
       hash = h \<rparr>"

record request =
  req_method :: string
  originalUrl :: string
  req_headers :: "(string, string) js_map"

definition generateKey :: "request \<Rightarrow> string" where
  "generateKey req = req_method req @ '':'' @ originalUrl req"

definition generateETag :: "InMemoryCache \<Rightarrow> json \<Rightarrow> string" where
  "generateETag c d = hash c d"

definition determineTTL :: "string \<Rightarrow> int" where
  "determineTTL url =
     (if includes_str url ''/indices'' then metadata ttlSettings
      else if includes_str url ''/climate-data/geojson/'' then geojson ttlSettings
      else if includes_str url ''/municipalities'' then municipalities ttlSettings
      else if includes_str url ''/health'' then health ttlSettings
      else default_tier ttlSettings)"

text \<open>\<^verbatim>\<open>Math.floor(ttl / 1000)\<close> is the floor division of integers.\<close>

definition getCacheControlHeader :: "int \<Rightarrow> string" where
  "getCacheControlHeader t = ''public, max-age='' @ string_of_int (t div 1000)"

text \<open>
  \<^verbatim>\<open>get(key)\<close> at clock reading \<open>now\<close>.  A stored item is an object, so
  \<^verbatim>\<open>!item\<close> holds exactly when the key is missing.
\<close>

definition get :: "InMemoryCache \<Rightarrow> string \<Rightarrow> int \<Rightarrow> item option \<times> InMemoryCache" where
  "get c key now =
     (case map_get key (cache c) of
        None \<Rightarrow> (None, c\<lparr>misses := misses c + 1\<rparr>)
      | Some it \<Rightarrow>
          if now > expiresAt it
          then (None, c\<lparr>cache := map_delete key (cache c), misses := misses c + 1\<rparr>)
          else (Some it, c\<lparr>hits := hits c + 1\<rparr>))"

text \<open>
  \<^verbatim>\<open>set(key, data, customTtl)\<close>.  \<^verbatim>\<open>Date.now()\<close> is read twice, first for
  \<^verbatim>\<open>expiresAt\<close> (\<open>now1\<close>), then for \<^verbatim>\<open>createdAt\<close> (\<open>now2\<close>).
  \<^verbatim>\<open>customTtl || this.ttl\<close> falls back to the instance TTL for \<^verbatim>\<open>null\<close> and 0.
\<close>

definition set_cache ::
  "InMemoryCache \<Rightarrow> string \<Rightarrow> json \<Rightarrow> int option \<Rightarrow> int \<Rightarrow> int \<Rightarrow> InMemoryCache" where
  "set_cache c key d customTtl now1 now2 =
     (let m = (if map_size (cache c) \<ge> maxSize c then delete_first_key (cache c) else cache c);
          t = (case customTtl of None \<Rightarrow> ttl c | Some t' \<Rightarrow> if t' = 0 then ttl c else t');
          e = generateETag c d
      in c\<lparr>cache := map_set key \<lparr>data = d, etag = e, expiresAt = now1 + t, createdAt = now2\<rparr> m\<rparr>)"

definition clear :: "InMemoryCache \<Rightarrow> InMemoryCache" where
  "clear c = c\<lparr>cache := [], hits := 0, misses := 0\<rparr>"

text \<open>
  \<^verbatim>\<open>getStats()\<close>.  The hit rate is kept as the operands of
  \<^verbatim>\<open>((hits / total) * 100).toFixed(2) + '%'\<close>; \<open>None\<close> is the \<^verbatim>\<open>'0%'\<close> of a
  cache that has had no lookup.  The floating-point division and its rendering are not
  modelled.
\<close>

record stats =
  stat_size :: nat
  stat_maxSize :: nat
  stat_hits :: nat
  stat_misses :: nat
  stat_hitRate :: "(nat \<times> nat) option"
  stat_ttl :: int

definition getStats :: "InMemoryCache \<Rightarrow> stats" where
  "getStats c =
     (let total = hits c + misses c
      in \<lparr> stat_size = map_size (cache c),
           stat_maxSize = maxSize c,
           stat_hits = hits c,
           stat_misses = misses c,
           stat_hitRate = (if total > 0 then Some (hits c, total) else None),
           stat_ttl = ttl c \<rparr>)"

subsection \<open>The Express middleware\<close>

text \<open>
  The response object as far as the middleware touches it.  \<open>finished\<close> is set by
  \<^verbatim>\<open>res.end()\<close> and by the framework's own \<^verbatim>\<open>res.json\<close>, which sends the body.
\<close>

record response =
  statusCode :: nat
  res_headers :: "(string, string) js_map"
  body :: "json option"
  finished :: bool

definition setHeader :: "response \<Rightarrow> string \<Rightarrow> string \<Rightarrow> response" where
  "setHeader res name v = res\<lparr>res_headers := map_set name v (res_headers res)\<rparr>"

definition status :: "response \<Rightarrow> nat \<Rightarrow> response" where
  "status res s = res\<lparr>statusCode := s\<rparr>"

definition end_response :: "response \<Rightarrow> response" where
  "end_response res = res\<lparr>finished := True\<rparr>"

text \<open>
  Express's \<^verbatim>\<open>res.json\<close>, which is not code of this repository, is taken to send the
  body it is given and to leave the status code as it is.  Whatever Express does on its
  own before sending (its freshness check against the request headers) is not
  modelled; every statement below about the status and the body of a response sent
  through \<^verbatim>\<open>res.json\<close> rests on this definition.
\<close>

definition originalJson :: "response \<Rightarrow> json \<Rightarrow> response" where
  "originalJson res d = res\<lparr>body := Some d, finished := True\<rparr>"

text \<open>
  What the middleware function does with a request: it answers it itself, or it calls
  \<^verbatim>\<open>next()\<close> with the response untouched, or it calls \<^verbatim>\<open>next()\<close> after replacing
  \<^verbatim>\<open>res.json\<close> by a function that captures the key and the TTL.
\<close>

datatype mw_result =
    Responded response
  | Next response
  | NextPatched response string int

definition middleware ::
  "InMemoryCache \<Rightarrow> request \<Rightarrow> response \<Rightarrow> int \<Rightarrow> InMemoryCache \<times> mw_result" where
  "middleware c req res now =
     (if req_method req \<noteq> ''GET'' then (c, Next res)
      else if includes_str (originalUrl req) ''/cache/'' then (c, Next res)
      else
        let key = generateKey req;
            (cachedItem, c1) = get c key now;
            t = determineTTL (originalUrl req)
        in case cachedItem of
             Some it \<Rightarrow>
               if map_get ''if-none-match'' (req_headers req) = Some (etag it)
               then
                 let r1 = setHeader res ''X-Cache'' ''HIT-304'';
                     r2 = setHeader r1 ''ETag'' (etag it);
                     r3 = setHeader r2 ''Cache-Control'' (getCacheControlHeader t)
                 in (c1, Responded (end_response (status r3 304)))
               else
                 let r1 = setHeader res ''X-Cache'' ''HIT'';
                     r2 = setHeader r1 ''X-Cache-Key'' key;
                     r3 = setHeader r2 ''ETag'' (etag it);
                     r4 = setHeader r3 ''Cache-Control'' (getCacheControlHeader t)
                 in (c1, Responded (originalJson r4 (data it)))
           | None \<Rightarrow> (c1, NextPatched res key t))"

text \<open>
  The replacement \<^verbatim>\<open>res.json\<close> installed on a miss, called later by the handler with
  the body \<open>d\<close>; \<open>now1\<close> and \<open>now2\<close> are the clock readings of the \<^verbatim>\<open>set\<close> it
  makes.
\<close>

definition json_override ::
  "InMemoryCache \<Rightarrow> string \<Rightarrow> int \<Rightarrow> response \<Rightarrow> json \<Rightarrow> int \<Rightarrow> int \<Rightarrow> InMemoryCache \<times> response" where
  "json_override c key t res d now1 now2 =
     (let (c1, r1) =
            (if statusCode res = 200
             then (set_cache c key d (Some t) now1 now2, setHeader res ''ETag'' (generateETag c d))
             else (c, res));
          r2 = setHeader r1 ''X-Cache'' ''MISS'';
          r3 = setHeader r2 ''X-Cache-Key'' key;
          r4 = setHeader r3 ''Cache-Control'' (getCacheControlHeader t)
      in (c1, originalJson r4 d))"

section \<open>The data-access collaborator\<close>

text \<open>
  \<^verbatim>\<open>query(text, params)\<close> of config/database.js resolves to a result whose \<^verbatim>\<open>rows\<close>
  are objects, or rejects.  The statements the code under study issues are told apart by
  a constructor each; the route's and the warmer's GeoJSON statements are different texts.
\<close>

datatype error = QueryError string | TypeError string

datatype sql =
    ActiveIndicesQuery
  | MunicipalitiesQuery
  | WarmGeoJSONQuery string string string
  | RouteGeoJSONQuery string string string

type_synonym row = "(string \<times> json) list"

type_synonym database = "sql \<Rightarrow> error + row list"

section \<open>The GeoJSON route (src/routes/climate-data.js)\<close>

definition validIndices :: "string list" where
  "validIndices =
     [''cdd'', ''cwd'', ''prcptot'', ''r10mm'', ''r20mm'', ''r95p'', ''r99p'',
      ''r95ptot'', ''r99ptot'', ''rx1day'', ''rx5day'', ''sdii'',
      ''fd'', ''tn10p'', ''tn90p'', ''tnlt2'', ''tnn'', ''tnx'',
      ''tx10p'', ''tx90p'', ''txge30'', ''txgt50p'', ''txn'', ''txx'',
      ''csdi'', ''wsdi'', ''txd_tnd'']"

text \<open>
  What a handler does with the response: \<^verbatim>\<open>res.status(s).json(d)\<close>
  (\<open>CallJson (Some s) d\<close>), \<^verbatim>\<open>res.json(d)\<close> (\<open>CallJson None d\<close>), or
  \<^verbatim>\<open>next(error)\<close>.
\<close>

datatype handler_call = CallJson "nat option" json | CallNext error

text \<open>
  \<^verbatim>\<open>GET /geojson/:scenario/:period/:index\<close>.  Reading \<^verbatim>\<open>result.rows[0].geojson\<close>
  of an empty result throws a TypeError, which the handler's \<^verbatim>\<open>catch\<close> passes to
  \<^verbatim>\<open>next\<close>.
\<close>

definition geojson_route :: "database \<Rightarrow> string \<Rightarrow> string \<Rightarrow> string \<Rightarrow> handler_call" where
  "geojson_route query scenario period index =
     (if index \<notin> set validIndices
      then CallJson (Some 400)
             (JObj [(''success'', JBool False),
                    (''error'', JStr ''Invalid climate index''),
                    (''valid_indices'', JArr (map JStr validIndices))])
      else
        case query (RouteGeoJSONQuery scenario period index) of
          Inl e \<Rightarrow> CallNext e
        | Inr rows \<Rightarrow>
            (case rows of
               [] \<Rightarrow> CallNext (TypeError ''Cannot read properties of undefined'')
             | r # _ \<Rightarrow>
                 (case map_get ''geojson'' r of
                    Some g \<Rightarrow>
                      if truthy g then CallJson None g
                      else CallJson (Some 404)
                             (JObj [(''success'', JBool False),
                                    (''error'', JStr ''No data found for specified parameters'')])
                  | None \<Rightarrow>
                      CallJson (Some 404)
                        (JObj [(''success'', JBool False),
                               (''error'', JStr ''No data found for specified parameters'')]))))"

text \<open>
  A request served through the middleware and then a handler.  When the handler passes an
  error to \<^verbatim>\<open>next\<close>, the cache is not touched again and the error is the result.
\<close>

definition serve ::
  "InMemoryCache \<Rightarrow> request \<Rightarrow> response \<Rightarrow> int \<Rightarrow> handler_call \<Rightarrow> int \<Rightarrow> int
     \<Rightarrow> InMemoryCache \<times> (error + response)" where
  "serve c req res now h now1 now2 =
     (case middleware c req res now of
        (c1, Responded r) \<Rightarrow> (c1, Inr r)
      | (c1, Next r) \<Rightarrow>
          (case h of
             CallNext e \<Rightarrow> (c1, Inl e)
           | CallJson None d \<Rightarrow> (c1, Inr (originalJson r d))
           | CallJson (Some s) d \<Rightarrow> (c1, Inr (originalJson (status r s) d)))
      | (c1, NextPatched r key t) \<Rightarrow>
          (case h of
             CallNext e \<Rightarrow> (c1, Inl e)
           | CallJson None d \<Rightarrow>
               (let (c2, r2) = json_override c1 key t r d now1 now2 in (c2, Inr r2))
           | CallJson (Some s) d \<Rightarrow>
               (let (c2, r2) = json_override c1 key t (status r s) d now1 now2 in (c2, Inr r2))))"

section \<open>The cache warmer (CacheWarmingService)\<close>

definition CLIMATE_INDICES :: "string list" where
  "CLIMATE_INDICES =
     [''cdd'', ''cwd'', ''prcptot'', ''r10mm'', ''r20mm'', ''r95p'', ''r99p'',
      ''r95ptot'', ''r99ptot'', ''rx1day'', ''rx5day'', ''sdii'',
      ''fd'', ''tn10p'', ''tn90p'', ''tnlt2'', ''tnn'', ''tnx'',
      ''tx10p'', ''tx90p'', ''txge30'', ''txgt50p'', ''txn'', ''txx'',
      ''csdi'', ''wsdi'', ''txd_tnd'']"

definition PRIORITY_INDICES :: "string list" where
  "PRIORITY_INDICES =
     [''cdd'', ''wsdi'', ''txge30'', ''prcptot'', ''rx1day'', ''fd'', ''r10mm'', ''csdi'']"

record CacheWarmingService =
  warmedCount :: nat
  failedCount :: nat
  startTime :: "int option"

text \<open>
  What the warmer runs against: the database, the wall clock (\<open>clock n\<close> is the value of
  the \<open>n\<close>-th call of \<^verbatim>\<open>Date.now()\<close>) and, for the entries of one
  \<^verbatim>\<open>Promise.all\<close> batch, the order in which their queries complete.
\<close>

record env =
  query :: database
  clock :: "nat \<Rightarrow> int"
  completion :: "string list \<Rightarrow> string list"

text \<open>The state a warm run changes: the cache, the service object, the clock reads so far.\<close>

record world =
  store :: InMemoryCache
  svc :: CacheWarmingService
  ticks :: nat

definition Date_now :: "env \<Rightarrow> world \<Rightarrow> int \<times> world" where
  "Date_now e w = (clock e (ticks w), w\<lparr>ticks := ticks w + 1\<rparr>)"

definition cache_set :: "env \<Rightarrow> world \<Rightarrow> string \<Rightarrow> json \<Rightarrow> int \<Rightarrow> world" where
  "cache_set e w key d t =
     (let (now1, w1) = Date_now e w;
          (now2, w2) = Date_now e w1
      in w2\<lparr>store := set_cache (store w2) key d (Some t) now1 now2\<rparr>)"

definition add_warmed :: "nat \<Rightarrow> world \<Rightarrow> world" where
  "add_warmed n w = w\<lparr>svc := (svc w)\<lparr>warmedCount := warmedCount (svc w) + n\<rparr>\<rparr>"

definition add_failed :: "nat \<Rightarrow> world \<Rightarrow> world" where
  "add_failed n w = w\<lparr>svc := (svc w)\<lparr>failedCount := failedCount (svc w) + n\<rparr>\<rparr>"

text \<open>
  \<^verbatim>\<open>buildGeoJSON\<close>: \<^verbatim>\<open>result.rows[0]?.geojson || null\<close> is \<^verbatim>\<open>null\<close> for an empty
  result, for a row without the column and for a falsy column value.
\<close>

definition buildGeoJSON :: "env \<Rightarrow> string \<Rightarrow> string \<Rightarrow> string \<Rightarrow> error + json" where
  "buildGeoJSON e scenario period index =
     (case query e (WarmGeoJSONQuery scenario period index) of
        Inl err \<Rightarrow> Inl err
      | Inr rows \<Rightarrow>
          Inr (case rows of
                 [] \<Rightarrow> JNull
               | r # _ \<Rightarrow>
                   (case map_get ''geojson'' r of
                      None \<Rightarrow> JNull
                    | Some g \<Rightarrow> if truthy g then g else JNull)))"

definition geojson_key :: "string \<Rightarrow> string \<Rightarrow> string \<Rightarrow> string" where
  "geojson_key scenario period index =
     ''GET:/api/climate-data/geojson/'' @ scenario @ ''/'' @ period @ ''/'' @ index"

text \<open>
  \<^verbatim>\<open>warmEntry\<close>.  The body is inside \<^verbatim>\<open>try\<close>; the \<^verbatim>\<open>catch\<close> counts a failure
  and returns \<^verbatim>\<open>false\<close>, so the promise never rejects.
\<close>

definition warmEntry ::
  "env \<Rightarrow> world \<Rightarrow> string \<Rightarrow> string \<Rightarrow> string \<Rightarrow> error + (world \<times> bool)" where
  "warmEntry e w scenario period index =
     (let key = geojson_key scenario period index
      in case buildGeoJSON e scenario period index of
           Inl err \<Rightarrow> Inr (add_failed 1 w, False)
         | Inr d \<Rightarrow>
             if truthy d
             then
               let t = 30 * 24 * 60 * 60 * 1000;
                   w1 = cache_set e w key (JObj [(''success'', JBool True), (''data'', d)]) t
               in Inr (add_warmed 1 w1, True)
             else Inr (add_failed 1 w, False))"

text \<open>
  \<^verbatim>\<open>await Promise.all(batch.map(index => this.warmEntry(...)))\<close>: every entry of the
  batch issues its query, and the rest of each \<^verbatim>\<open>warmEntry\<close> runs, one entry at a
  time, in the order the queries complete.  A rejection would reject the whole batch.
\<close>

fun warmEntries :: "env \<Rightarrow> world \<Rightarrow> string \<Rightarrow> string \<Rightarrow> string list \<Rightarrow> error + world" where
  "warmEntries e w scenario period [] = Inr w"
| "warmEntries e w scenario period (index # rest) =
     (case warmEntry e w scenario period index of
        Inl err \<Rightarrow> Inl err
      | Inr (w1, ok) \<Rightarrow> warmEntries e w1 scenario period rest)"

definition warmBatch :: "env \<Rightarrow> world \<Rightarrow> string \<Rightarrow> string \<Rightarrow> string list \<Rightarrow> error + world" where
  "warmBatch e w scenario period batch = warmEntries e w scenario period (completion e batch)"

text \<open>
  \<^verbatim>\<open>for (let i = 0; i < xs.length; i += 5) batches.push(xs.slice(i, i + 5))\<close>.
\<close>

function batches_of_5 :: "'a list \<Rightarrow> 'a list list" where
  "batches_of_5 xs = (if xs = [] then [] else take 5 xs # batches_of_5 (drop 5 xs))"
  by pat_completeness auto
termination
  by (relation "measure length") auto

declare batches_of_5.simps [simp del]

fun warmBatches :: "env \<Rightarrow> world \<Rightarrow> string \<Rightarrow> string \<Rightarrow> string list list \<Rightarrow> error + world" where
  "warmBatches e w scenario period [] = Inr w"
| "warmBatches e w scenario period (batch # rest) =
     (case warmBatch e w scenario period batch of
        Inl err \<Rightarrow> Inl err
      | Inr w1 \<Rightarrow> warmBatches e w1 scenario period rest)"

definition warmTier1 :: "env \<Rightarrow> world \<Rightarrow> error + world" where
  "warmTier1 e w =
     (let scenario = ''ssp245'';
          period = ''near-term_2021-2040'';
          priorityBatches = batches_of_5 PRIORITY_INDICES
      in case warmBatches e w scenario period priorityBatches of
           Inl err \<Rightarrow> Inl err
         | Inr w1 \<Rightarrow>
             let remainingIndices = filter (\<lambda>idx. idx \<notin> set PRIORITY_INDICES) CLIMATE_INDICES
             in if length remainingIndices > 0
                then warmBatches e w1 scenario period (batches_of_5 remainingIndices)
                else Inr w1)"

text \<open>The envelope \<^verbatim>\<open>{ success: true, count: rows.length, data: rows }\<close>.\<close>

definition envelope :: "row list \<Rightarrow> json" where
  "envelope rows =
     JObj [(''success'', JBool True),
           (''count'', JNum (int (length rows))),
           (''data'', JArr (map JObj rows))]"

text \<open>
  \<^verbatim>\<open>warmMetadata\<close>.  Both queries and both \<^verbatim>\<open>cache.set\<close> calls are inside one
  \<^verbatim>\<open>try\<close>; its \<^verbatim>\<open>catch\<close> adds 2 to the failure count and returns, keeping
  whatever was stored before the error.
\<close>

definition warmMetadata :: "env \<Rightarrow> world \<Rightarrow> error + world" where
  "warmMetadata e w =
     (case query e ActiveIndicesQuery of
        Inl err \<Rightarrow> Inr (add_failed 2 w)
      | Inr indicesRows \<Rightarrow>
          let t = 7 * 24 * 60 * 60 * 1000;
              w1 = cache_set e w ''GET:/api/indices'' (envelope indicesRows) t
          in case query e MunicipalitiesQuery of
               Inl err \<Rightarrow> Inr (add_failed 2 w1)
             | Inr municRows \<Rightarrow>
                 let w2 = cache_set e w1 ''GET:/api/municipalities'' (envelope municRows) t
                 in Inr (add_warmed 2 w2))"

text \<open>
  \<^verbatim>\<open>warmCache\<close>: the counters are reset, the two phases run inside \<^verbatim>\<open>try\<close>, and the
  \<^verbatim>\<open>catch\<close> rethrows.  The last clock read is the one of the duration that is logged.
\<close>

definition warmCache :: "env \<Rightarrow> world \<Rightarrow> error + world" where
  "warmCache e w =
     (let (now, w0) = Date_now e w;
          w1 = w0\<lparr>svc := (svc w0)\<lparr>startTime := Some now, warmedCount := 0, failedCount := 0\<rparr>\<rparr>
      in case warmMetadata e w1 of
           Inl err \<Rightarrow> Inl err
         | Inr w2 \<Rightarrow>
             (case warmTier1 e w2 of
                Inl err \<Rightarrow> Inl err
              | Inr w3 \<Rightarrow> Inr (snd (Date_now e w3))))"

text \<open>Storing a list of entries one after the other, as a test of the store does.\<close>

type_synonym store_op = "string \<times> json \<times> int option \<times> int \<times> int"

fun store_all :: "InMemoryCache \<Rightarrow> store_op list \<Rightarrow> InMemoryCache" where
  "store_all c [] = c"
| "store_all c ((key, d, customTtl, now1, now2) # ops) =
     store_all (set_cache c key d customTtl now1 now2) ops"

section \<open>The stores the program produces\<close>

text \<open>
  The cache is written by the constructor, by \<^verbatim>\<open>clear\<close>, by \<^verbatim>\<open>get\<close>, by the
  middleware together with the replaced \<^verbatim>\<open>res.json\<close> (\<open>serve\<close>, for any request and
  anything the handler does), and by a warm run whose batches complete in some order of
  their entries.  Nothing else in the repository calls \<^verbatim>\<open>set\<close>.
\<close>

inductive produced :: "InMemoryCache \<Rightarrow> bool" where
  created: "produced (new_InMemoryCache opt_ttl opt_maxSize h)"
| cleared: "produced c \<Longrightarrow> produced (clear c)"
| looked_up: "produced c \<Longrightarrow> produced (snd (get c key now))"
| served: "produced c \<Longrightarrow> produced (fst (serve c req res now h now1 now2))"
| warmed: "produced (store w) \<Longrightarrow> (\<forall>b. mset (completion e b) = mset b) \<Longrightarrow>
           warmCache e w = Inr w' \<Longrightarrow> produced (store w')"

section \<open>Sample inputs\<close>

text \<open>A stand-in for the MD5 fingerprint, used where a concrete cache is evaluated.\<close>

fun sample_hash :: "json \<Rightarrow> string" where
  "sample_hash (JStr s) = ''md5-'' @ s"
| "sample_hash (JObj ps) = ''md5-'' @ concat (map fst ps)"
| "sample_hash d = ''md5''"

text \<open>A cache of capacity 2 filled with the keys \<open>a\<close> and \<open>b\<close>, in this order.\<close>

definition small_cache :: InMemoryCache where
  "small_cache = new_InMemoryCache None (Some 2) sample_hash"

definition full_cache :: InMemoryCache where
  "full_cache =
     store_all small_cache
       [(''a'', JStr ''one'', None, 1000, 1000), (''b'', JStr ''two'', None, 2000, 2000)]"

text \<open>A cache of capacity 3 holding the keys \<open>a\<close> and \<open>b\<close>: one place is free.\<close>

definition roomy_cache :: InMemoryCache where
  "roomy_cache =
     store_all (new_InMemoryCache None (Some 3) sample_hash)
       [(''a'', JStr ''one'', None, 1000, 1000), (''b'', JStr ''two'', None, 2000, 2000)]"

text \<open>Three stores with distinct keys, one more than \<open>small_cache\<close> holds.\<close>

definition three_stores :: "store_op list" where
  "three_stores =
     [(''a'', JStr ''one'', None, 1000, 1000),
      (''b'', JStr ''two'', None, 2000, 2000),
      (''c'', JStr ''three'', None, 3000, 3000)]"

text \<open>A response nothing has been written to yet.\<close>

definition fresh_response :: response where
  "fresh_response = \<lparr>statusCode = 200, res_headers = [], body = None, finished = False\<rparr>"

text \<open>A GET request with the given headers.\<close>

definition get_request :: "string \<Rightarrow> (string, string) js_map \<Rightarrow> request" where
  "get_request url hs = \<lparr>req_method = ''GET'', originalUrl = url, req_headers = hs\<rparr>"

definition cdd_url :: string where
  "cdd_url = ''/api/climate-data/geojson/ssp245/near-term_2021-2040/cdd''"

text \<open>A cache holding one GeoJSON response, stored at time 1000 with the 30-day TTL.\<close>

definition cdd_cache :: InMemoryCache where
  "cdd_cache =
     set_cache small_cache (''GET:'' @ cdd_url) (JStr ''cdd-features'') (Some 2592000000) 1000 1000"

text \<open>
  The cache after one GET of the GeoJSON path was served on a miss: the handler answered
  with a body at time 1000, and the middleware stored it.
\<close>

definition served_cache :: InMemoryCache where
  "served_cache =
     fst (serve small_cache (get_request cdd_url []) fresh_response 0
            (CallJson None (JStr ''cdd-features'')) 1000 1000)"

text \<open>A GeoJSON path whose query string names two more markers.\<close>

definition three_marker_url :: string where
  "three_marker_url = ''/api/climate-data/geojson/ssp245/near-term_2021-2040/cdd?from=/municipalities/indices''"

definition two_marker_url :: string where
  "two_marker_url = ''/api/climate-data/geojson/ssp245/near-term_2021-2040/cdd?from=/municipalities''"

text \<open>
  A database that answers every statement: one index record, one municipality record, and
  for every GeoJSON statement one row whose \<open>geojson\<close> column is a feature collection.
\<close>

definition sample_fc :: json where
  "sample_fc = JObj [(''type'', JStr ''FeatureCollection''), (''features'', JArr [JStr ''feature''])]"

fun sample_db :: database where
  "sample_db ActiveIndicesQuery = Inr [[(''index_code'', JStr ''cdd'')]]"
| "sample_db MunicipalitiesQuery = Inr [[(''municipality_name'', JStr ''Cape Town'')]]"
| "sample_db (WarmGeoJSONQuery scenario period index) = Inr [[(''geojson'', sample_fc)]]"
| "sample_db (RouteGeoJSONQuery scenario period index) = Inr [[(''geojson'', sample_fc)]]"

text \<open>The same database with the index metadata statement failing.\<close>

fun failing_db :: database where
  "failing_db ActiveIndicesQuery = Inl (QueryError ''connection refused'')"
| "failing_db q = sample_db q"

text \<open>
  The clock advances by one millisecond per reading; the queries of a batch complete in
  the reverse of the order they were issued.
\<close>

definition sample_env :: env where
  "sample_env = \<lparr>query = sample_db, clock = (\<lambda>n. int n), completion = rev\<rparr>"

definition failing_env :: env where
  "failing_env = \<lparr>query = failing_db, clock = (\<lambda>n. int n), completion = rev\<rparr>"

text \<open>The world at start-up: the exported cache instance (capacity 400), nothing warmed.\<close>

definition sample_world :: world where
  "sample_world =
     \<lparr>store = new_InMemoryCache (Some 3600000) (Some 400) sample_hash,
      svc = \<lparr>warmedCount = 0, failedCount = 0, startTime = None\<rparr>,
      ticks = 0\<rparr>"

section \<open>Facts about the Map model\<close>

lemma starts_with_iff: "starts_with s p \<longleftrightarrow> (\<exists>b. s = p @ b)"
  by (induction s p rule: starts_with.induct) auto

lemma includes_str_iff: "includes_str s p \<longleftrightarrow> (\<exists>a b. s = a @ p @ b)"
proof (induction s)
  case Nil
  then show ?case by auto
next
  case (Cons x xs)
  show ?case
  proof
    assume "includes_str (x # xs) p"
    then consider "starts_with (x # xs) p" | "includes_str xs p" by auto
    then show "\<exists>a b. x # xs = a @ p @ b"
    proof cases
      case 1
      then obtain b where "x # xs = p @ b" by (auto simp: starts_with_iff)
      then have "x # xs = [] @ p @ b" by simp
      then show ?thesis by blast
    next
      case 2
      then obtain a b where "xs = a @ p @ b" using Cons.IH by blast
      then have "x # xs = (x # a) @ p @ b" by simp
      then show ?thesis by blast
    qed
  next
    assume "\<exists>a b. x # xs = a @ p @ b"
    then obtain a b where ab: "x # xs = a @ p @ b" by blast
    show "includes_str (x # xs) p"
    proof (cases a)
      case Nil
      with ab have "starts_with (x # xs) p" by (auto simp: starts_with_iff)
      then show ?thesis by simp
    next
      case (Cons y ys)
      with ab have "xs = ys @ p @ b" by simp
      then have "includes_str xs p" using Cons.IH by blast
      then show ?thesis by simp
    qed
  qed
qed

lemma map_get_map_of: "map_get k m = map_of m k"
  by (induction m) auto

lemma map_get_None_iff: "map_get k m = None \<longleftrightarrow> k \<notin> set (map_keys m)"
  by (simp add: map_get_map_of map_of_eq_None_iff map_keys_def)

lemma map_get_map_set_same: "map_get k (map_set k v m) = Some v"
  by (induction m) auto

lemma map_get_map_set_other: "k' \<noteq> k \<Longrightarrow> map_get k' (map_set k v m) = map_get k' m"
  by (induction m) auto

lemma map_keys_map_set:
  "map_keys (map_set k v m) = (if k \<in> set (map_keys m) then map_keys m else map_keys m @ [k])"
  by (induction m) (force simp: map_keys_def split: if_splits)+

lemma map_delete_filter: "map_delete k m = filter (\<lambda>p. fst p \<noteq> k) m"
  by (induction m) auto

lemma map_keys_map_delete: "map_keys (map_delete k m) = filter (\<lambda>k'. k' \<noteq> k) (map_keys m)"
  by (induction m) (auto simp: map_keys_def)

lemma map_delete_absent: "k \<notin> set (map_keys m) \<Longrightarrow> map_delete k m = m"
  by (induction m) (auto simp: map_keys_def)

lemma map_get_map_delete_other: "k' \<noteq> k \<Longrightarrow> map_get k' (map_delete k m) = map_get k' m"
  by (induction m) auto

lemma length_map_delete:
  "distinct (map_keys m) \<Longrightarrow> k \<in> set (map_keys m) \<Longrightarrow> Suc (length (map_delete k m)) = length m"
proof (induction m)
  case Nil
  then show ?case by (simp add: map_keys_def)
next
  case (Cons p m)
  obtain k' v where p: "p = (k', v)" by (cases p)
  show ?case
  proof (cases "k' = k")
    case True
    with Cons.prems p have "k \<notin> set (map_keys m)" by (simp add: map_keys_def)
    then have "map_delete k m = m" by (rule map_delete_absent)
    with True p show ?thesis by simp
  next
    case False
    with Cons p show ?thesis by (simp add: map_keys_def)
  qed
qed

lemma delete_first_key_tl: "distinct (map_keys m) \<Longrightarrow> delete_first_key m = tl m"
proof (cases m)
  case Nil
  then show ?thesis by (simp add: delete_first_key_def map_keys_def)
next
  case (Cons p m')
  assume d: "distinct (map_keys m)"
  obtain k v where p: "p = (k, v)" by (cases p)
  from d Cons p have "k \<notin> set (map_keys m')" by (simp add: map_keys_def)
  then have "map_delete k m' = m'" by (rule map_delete_absent)
  with Cons p show ?thesis by (simp add: delete_first_key_def map_keys_def)
qed

lemma map_keys_tl: "map_keys (tl m) = tl (map_keys m)"
  by (simp add: map_keys_def map_tl)

lemma distinct_map_keys_map_set: "distinct (map_keys m) \<Longrightarrow> distinct (map_keys (map_set k v m))"
  by (simp add: map_keys_map_set)

lemma distinct_map_keys_map_delete: "distinct (map_keys m) \<Longrightarrow> distinct (map_keys (map_delete k m))"
  by (simp add: map_keys_map_delete)

section \<open>Facts about the cache store\<close>

lemma in_set_tl: "x \<in> set (tl xs) \<Longrightarrow> x \<in> set xs"
  by (cases xs) auto

lemma map_keys_set_cache:
  assumes "distinct (map_keys (cache c))"
  shows "map_keys (cache (set_cache c key d customTtl now1 now2)) =
           (let ks = (if maxSize c \<le> map_size (cache c) then tl (map_keys (cache c)) else map_keys (cache c))
            in if key \<in> set ks then ks else ks @ [key])"
  using assms
  by (simp add: set_cache_def Let_def map_keys_map_set delete_first_key_tl map_keys_tl)

lemma distinct_set_cache:
  assumes "distinct (map_keys (cache c))"
  shows "distinct (map_keys (cache (set_cache c key d customTtl now1 now2)))"
  using assms by (auto simp: map_keys_set_cache Let_def distinct_tl dest: in_set_tl)

lemma maxSize_set_cache [simp]: "maxSize (set_cache c key d customTtl now1 now2) = maxSize c"
  by (simp add: set_cache_def Let_def)

lemma hits_set_cache [simp]: "hits (set_cache c key d customTtl now1 now2) = hits c"
  by (simp add: set_cache_def Let_def)

lemma misses_set_cache [simp]: "misses (set_cache c key d customTtl now1 now2) = misses c"
  by (simp add: set_cache_def Let_def)

lemma hash_set_cache [simp]: "hash (set_cache c key d customTtl now1 now2) = hash c"
  by (simp add: set_cache_def Let_def)

lemma ttl_set_cache [simp]: "ttl (set_cache c key d customTtl now1 now2) = ttl c"
  by (simp add: set_cache_def Let_def)

lemma map_get_set_cache_same:
  "map_get key (cache (set_cache c key d customTtl now1 now2)) =
     Some \<lparr>data = d, etag = hash c d,
           expiresAt = now1 + (case customTtl of None \<Rightarrow> ttl c | Some t \<Rightarrow> if t = 0 then ttl c else t),
           createdAt = now2\<rparr>"
  by (simp add: set_cache_def Let_def map_get_map_set_same generateETag_def)

lemma store_all_append: "store_all c (ops @ [op]) = (case op of (key, d, customTtl, now1, now2) \<Rightarrow> set_cache (store_all c ops) key d customTtl now1 now2)"
  by (induction c ops rule: store_all.induct) (auto split: prod.splits)

lemma maxSize_store_all [simp]: "maxSize (store_all c ops) = maxSize c"
  by (induction c ops rule: store_all.induct) auto

lemma distinct_store_all: "distinct (map_keys (cache c)) \<Longrightarrow> distinct (map_keys (cache (store_all c ops)))"
  by (induction c ops rule: store_all.induct) (auto simp: distinct_set_cache)

lemma map_keys_store_all:
  assumes "cache c = []" and "1 \<le> maxSize c" and "distinct (map fst ops)"
  shows "map_keys (cache (store_all c ops)) = drop (length ops - maxSize c) (map fst ops)"
  using assms(3)
proof (induction ops rule: rev_induct)
  case Nil
  then show ?case using assms(1) by (simp add: map_keys_def)
next
  case (snoc op ops)
  obtain key d customTtl now1 now2 where op: "op = (key, d, customTtl, now1, now2)"
    by (cases op)
  let ?c = "store_all c ops"
  let ?ks = "map_keys (cache ?c)"
  from snoc have ks: "?ks = drop (length ops - maxSize c) (map fst ops)" by simp
  have d: "distinct ?ks" using assms(1) by (intro distinct_store_all) (simp add: map_keys_def)
  from snoc.prems op have new: "key \<notin> set (map fst ops)" by simp
  then have notin: "key \<notin> set ?ks" using ks by (auto dest: in_set_dropD)
  have len: "map_size (cache ?c) = min (maxSize c) (length ops)"
    using ks by (metis length_drop length_map map_keys_def map_size_def min.commute diff_diff_cancel min_def nat_le_linear diff_is_0_eq' diff_zero)
  show ?case
  proof (cases "maxSize c \<le> length ops")
    case True
    then have "map_keys (cache (store_all c (ops @ [op]))) = tl ?ks @ [key]"
      using notin len d by (auto simp: store_all_append op map_keys_set_cache Let_def dest: in_set_tl)
    also have "tl ?ks = drop (Suc (length ops) - maxSize c) (map fst ops)"
      using True by (simp add: ks tl_drop Suc_diff_le drop_Suc)
    finally show ?thesis using True op assms(2) by (simp add: Suc_diff_le)
  next
    case False
    then have "map_keys (cache (store_all c (ops @ [op]))) = ?ks @ [key]"
      using notin len d by (auto simp: store_all_append op map_keys_set_cache Let_def)
    then show ?thesis using False op ks assms(2) by simp
  qed
qed

lemma full_cache_eval:
  "cache full_cache =
     [(''a'', \<lparr>data = JStr ''one'', etag = ''md5-one'', expiresAt = 3601000, createdAt = 1000\<rparr>),
      (''b'', \<lparr>data = JStr ''two'', etag = ''md5-two'', expiresAt = 3602000, createdAt = 2000\<rparr>)]"
  "maxSize full_cache = 2" "hits full_cache = 0" "misses full_cache = 0" "ttl full_cache = 3600000"
  "hash full_cache = sample_hash"
  by (simp_all add: full_cache_def small_cache_def new_InMemoryCache_def set_cache_def
      map_size_def delete_first_key_def map_keys_def generateETag_def Let_def)

lemma roomy_cache_eval:
  "cache roomy_cache =
     [(''a'', \<lparr>data = JStr ''one'', etag = ''md5-one'', expiresAt = 3601000, createdAt = 1000\<rparr>),
      (''b'', \<lparr>data = JStr ''two'', etag = ''md5-two'', expiresAt = 3602000, createdAt = 2000\<rparr>)]"
  "maxSize roomy_cache = 3" "ttl roomy_cache = 3600000" "hash roomy_cache = sample_hash"
  by (simp_all add: roomy_cache_def new_InMemoryCache_def set_cache_def
      map_size_def delete_first_key_def map_keys_def generateETag_def Let_def)

text \<open>
  The keys of the Map are pairwise different in every state the operations produce, and
  a constructed cache is empty with a maximum size of at least 1.
\<close>

lemma new_InMemoryCache_facts:
  "cache (new_InMemoryCache opt_ttl opt_maxSize h) = []"
  "1 \<le> maxSize (new_InMemoryCache opt_ttl opt_maxSize h)"
  "distinct (map_keys (cache (new_InMemoryCache opt_ttl opt_maxSize h)))"
  by (simp_all add: new_InMemoryCache_def map_keys_def split: option.splits)

lemma distinct_get:
  "distinct (map_keys (cache c)) \<Longrightarrow> distinct (map_keys (cache (snd (get c key now))))"
  by (simp add: get_def map_keys_map_delete split: option.splits)

lemma distinct_clear: "distinct (map_keys (cache (clear c)))"
  by (simp add: clear_def map_keys_def)

subsection \<open>C5: looking up an expired entry\<close>

text \<open>
  Claim C5.  When the entry stored under \<open>key\<close> has an \<open>expiresAt\<close> strictly before the
  time of the lookup, \<open>get\<close> returns no item, the entry is gone from the store and no other
  entry is, the size of the store is one less, the miss counter is one more, and the hit
  counter is unchanged.
\<close>
theorem get_expired_is_miss_and_removes:
  assumes "distinct (map_keys (cache c))"
    and "map_get key (cache c) = Some it"
    and "now > expiresAt it"
  shows "fst (get c key now) = None
       \<and> map_get key (cache (snd (get c key now))) = None
       \<and> map_keys (cache (snd (get c key now))) = filter (\<lambda>k. k \<noteq> key) (map_keys (cache c))
       \<and> Suc (map_size (cache (snd (get c key now)))) = map_size (cache c)
       \<and> misses (snd (get c key now)) = misses c + 1
       \<and> hits (snd (get c key now)) = hits c"
proof -
  from assms(2) have present: "key \<in> set (map_keys (cache c))"
    using map_get_None_iff [of key "cache c"] by auto
  have g: "get c key now = (None, c\<lparr>cache := map_delete key (cache c), misses := misses c + 1\<rparr>)"
    using assms(2,3) by (simp add: get_def)
  have gone: "map_get key (map_delete key (cache c)) = None"
    by (simp add: map_get_None_iff map_keys_map_delete)
  have len: "Suc (length (map_delete key (cache c))) = length (cache c)"
    using assms(1) present by (rule length_map_delete)
  show ?thesis
    using gone len by (simp add: g map_size_def map_keys_map_delete)
qed

theorem get_expired_witness:
  "distinct (map_keys (cache full_cache))
   \<and> map_get ''a'' (cache full_cache)
       = Some \<lparr>data = JStr ''one'', etag = ''md5-one'', expiresAt = 3601000, createdAt = 1000\<rparr>
   \<and> (3601001::int) > expiresAt \<lparr>data = JStr ''one'', etag = ''md5-one'', expiresAt = 3601000, createdAt = 1000\<rparr>
   \<and> fst (get full_cache ''a'' 3601001) = None
   \<and> map_keys (cache (snd (get full_cache ''a'' 3601001))) = [''b'']
   \<and> map_size (cache (snd (get full_cache ''a'' 3601001))) = 1
   \<and> misses (snd (get full_cache ''a'' 3601001)) = 1
   \<and> hits (snd (get full_cache ''a'' 3601001)) = 0"
  using get_expired_is_miss_and_removes [of full_cache "''a''"
      "\<lparr>data = JStr ''one'', etag = ''md5-one'', expiresAt = 3601000, createdAt = 1000\<rparr>" 3601001]
  by (simp add: full_cache_eval map_keys_def map_size_def)


subsection \<open>C3: storing into a full cache\<close>

text \<open>
  Claim C3 says that on a full cache \<open>set\<close> evicts only when the key is new, and that
  replacing a present key removes no other entry and keeps the size.  The code tests only
  the size: on the full cache holding \<open>a\<close> and \<open>b\<close>, replacing \<open>b\<close> removes \<open>a\<close>
  and leaves one entry.
\<close>
theorem replace_at_capacity_counterexample:
  "maxSize full_cache \<le> map_size (cache full_cache)
   \<and> map_get ''b'' (cache full_cache) \<noteq> None
   \<and> map_get ''a'' (cache full_cache) \<noteq> None
   \<and> map_get ''a'' (cache (set_cache full_cache ''b'' (JStr ''new'') None 3000 3000)) = None
   \<and> map_size (cache (set_cache full_cache ''b'' (JStr ''new'') None 3000 3000)) = 1
   \<and> map_size (cache full_cache) = 2"
  by (simp add: full_cache_eval set_cache_def map_size_def delete_first_key_def map_keys_def
      generateETag_def Let_def)

text \<open>
  Claim C3, amended.  On a cache at or above its maximum size, \<open>set\<close> removes the
  oldest-inserted entry whether or not the key is present, then replaces the key's entry
  in place or appends it.  So a replacement of a key other than the oldest removes the
  oldest entry and the size drops by one; storing the oldest key itself or a new key
  into a non-empty full cache keeps the size.
\<close>
theorem set_cache_at_capacity:
  assumes "distinct (map_keys (cache c))"
    and "maxSize c \<le> map_size (cache c)"
  shows "map_keys (cache (set_cache c key d customTtl now1 now2)) =
           (if key \<in> set (tl (map_keys (cache c)))
            then tl (map_keys (cache c))
            else tl (map_keys (cache c)) @ [key])
       \<and> (key \<in> set (tl (map_keys (cache c))) \<longrightarrow>
            Suc (map_size (cache (set_cache c key d customTtl now1 now2))) = map_size (cache c))
       \<and> (key \<notin> set (tl (map_keys (cache c))) \<longrightarrow> cache c \<noteq> [] \<longrightarrow>
            map_size (cache (set_cache c key d customTtl now1 now2)) = map_size (cache c))"
proof -
  let ?c' = "set_cache c key d customTtl now1 now2"
  have ks: "map_keys (cache ?c') =
           (if key \<in> set (tl (map_keys (cache c)))
            then tl (map_keys (cache c))
            else tl (map_keys (cache c)) @ [key])"
    using assms by (simp add: map_keys_set_cache Let_def)
  have sz: "map_size (cache ?c') = length (map_keys (cache ?c'))" for c' 
    by (simp add: map_size_def map_keys_def)
  have sz0: "map_size (cache c) = length (map_keys (cache c))"
    by (simp add: map_size_def map_keys_def)
  have a: "Suc (map_size (cache ?c')) = map_size (cache c)"
    if "key \<in> set (tl (map_keys (cache c)))"
  proof -
    from that have "map_keys (cache c) \<noteq> []" by auto
    then show ?thesis using that by (simp add: sz sz0 ks)
  qed
  have b: "map_size (cache ?c') = map_size (cache c)"
    if "key \<notin> set (tl (map_keys (cache c)))" and "cache c \<noteq> []"
  proof -
    from that(2) have "map_keys (cache c) \<noteq> []" by (simp add: map_keys_def)
    then show ?thesis using that(1) by (simp add: sz sz0 ks)
  qed
  from ks a b show ?thesis by blast
qed

theorem set_cache_at_capacity_witness:
  "distinct (map_keys (cache full_cache))
   \<and> maxSize full_cache \<le> map_size (cache full_cache)
   \<and> map_keys (cache (set_cache full_cache ''b'' (JStr ''new'') None 3000 3000)) = [''b'']
   \<and> Suc (map_size (cache (set_cache full_cache ''b'' (JStr ''new'') None 3000 3000))) = 2
   \<and> map_keys (cache (set_cache full_cache ''c'' (JStr ''new'') None 3000 3000)) = [''b'', ''c'']
   \<and> map_size (cache (set_cache full_cache ''c'' (JStr ''new'') None 3000 3000)) = 2"
  using set_cache_at_capacity [of full_cache "''b''" "JStr ''new''" None 3000 3000]
    set_cache_at_capacity [of full_cache "''c''" "JStr ''new''" None 3000 3000]
  by (simp add: full_cache_eval map_keys_def map_size_def)

subsection \<open>C4: one insertion more than the capacity\<close>

text \<open>
  Claim C4.  Starting from an empty cache of maximum size \<open>maxSize\<close> (at least 1, as the
  constructor guarantees), storing \<open>maxSize + 1\<close> distinct keys leaves exactly
  \<open>maxSize\<close> entries; the key stored first is absent and the others are present, in
  the order they were stored.
\<close>
theorem overflow_by_one_evicts_first:
  assumes "cache c = []"
    and "1 \<le> maxSize c"
    and "distinct (map fst ops)"
    and "length ops = maxSize c + 1"
  shows "map_size (cache (store_all c ops)) = maxSize c
       \<and> map_get (fst (hd ops)) (cache (store_all c ops)) = None
       \<and> map_keys (cache (store_all c ops)) = tl (map fst ops)"
proof -
  have ks: "map_keys (cache (store_all c ops)) = tl (map fst ops)"
    using map_keys_store_all [OF assms(1,2,3)] assms(4) by (simp add: drop_Suc)
  have "length (map_keys (cache (store_all c ops))) = maxSize c"
    using assms(4) by (simp add: ks)
  then have sz: "map_size (cache (store_all c ops)) = maxSize c"
    by (simp add: map_size_def map_keys_def)
  from assms(4) obtain op rest where ops: "ops = op # rest" by (cases ops) auto
  with assms(3) have "fst (hd ops) \<notin> set (tl (map fst ops))" by auto
  then have "map_get (fst (hd ops)) (cache (store_all c ops)) = None"
    by (simp add: map_get_None_iff ks)
  with sz ks show ?thesis by simp
qed

theorem overflow_by_one_witness:
  "cache small_cache = []
   \<and> 1 \<le> maxSize small_cache
   \<and> distinct (map fst three_stores)
   \<and> length three_stores = maxSize small_cache + 1
   \<and> map_size (cache (store_all small_cache three_stores)) = 2
   \<and> map_get ''a'' (cache (store_all small_cache three_stores)) = None
   \<and> map_keys (cache (store_all small_cache three_stores)) = [''b'', ''c'']"
  using overflow_by_one_evicts_first [of small_cache three_stores]
  by (simp add: small_cache_def three_stores_def new_InMemoryCache_def)

subsection \<open>C10: re-storing a key and the eviction order\<close>

text \<open>
  Claim C10 says that in a cache at capacity the earliest-inserted key stays the next
  eviction victim even if it was just re-stored.  On the full cache holding \<open>a\<close> and
  \<open>b\<close>, re-storing \<open>a\<close> evicts \<open>a\<close> itself and appends it again, so \<open>b\<close> is
  now the oldest key, and the next store of a new key evicts \<open>b\<close> and keeps \<open>a\<close>.
\<close>
theorem restore_oldest_at_capacity_counterexample:
  "map_size (cache full_cache) = maxSize full_cache
   \<and> map_keys (cache full_cache) = [''a'', ''b'']
   \<and> map_keys (cache (set_cache full_cache ''a'' (JStr ''new'') None 3000 3000)) = [''b'', ''a'']
   \<and> map_keys (cache (set_cache (set_cache full_cache ''a'' (JStr ''new'') None 3000 3000)
                          ''c'' (JStr ''three'') None 4000 4000)) = [''a'', ''c'']"
  by (simp add: full_cache_eval set_cache_def map_size_def delete_first_key_def map_keys_def
      generateETag_def Let_def)

text \<open>
  Claim C10, amended.  Re-storing a present key always refreshes its payload, fingerprint
  and expiry.  While the cache is below its maximum size the key keeps its place in the
  eviction order, so the earliest-inserted key stays the next victim.  At or above the
  maximum size the re-store first evicts the oldest entry: the oldest key itself moves to
  the back of the order, any other key keeps its place relative to the remaining keys.
\<close>
theorem restore_existing_key:
  assumes "distinct (map_keys (cache c))"
    and "key \<in> set (map_keys (cache c))"
  shows "map_get key (cache (set_cache c key d customTtl now1 now2)) =
           Some \<lparr>data = d, etag = hash c d,
                 expiresAt = now1 + (case customTtl of None \<Rightarrow> ttl c
                                     | Some t \<Rightarrow> if t = 0 then ttl c else t),
                 createdAt = now2\<rparr>
       \<and> (map_size (cache c) < maxSize c \<longrightarrow>
            map_keys (cache (set_cache c key d customTtl now1 now2)) = map_keys (cache c))
       \<and> (maxSize c \<le> map_size (cache c) \<longrightarrow>
            map_keys (cache (set_cache c key d customTtl now1 now2)) =
              (if key = hd (map_keys (cache c))
               then tl (map_keys (cache c)) @ [key]
               else tl (map_keys (cache c))))"
proof -
  from assms(2) obtain k ks where ks: "map_keys (cache c) = k # ks"
    by (cases "map_keys (cache c)") auto
  with assms(1) have k: "k \<notin> set ks" by simp
  have below: "map_keys (cache (set_cache c key d customTtl now1 now2)) = map_keys (cache c)"
    if "map_size (cache c) < maxSize c"
    using that assms by (simp add: map_keys_set_cache Let_def)
  have full: "map_keys (cache (set_cache c key d customTtl now1 now2)) =
              (if key = hd (map_keys (cache c))
               then tl (map_keys (cache c)) @ [key]
               else tl (map_keys (cache c)))"
    if "maxSize c \<le> map_size (cache c)"
    using that assms k ks by (auto simp: map_keys_set_cache Let_def)
  from below full show ?thesis by (simp add: map_get_set_cache_same)
qed

theorem restore_existing_key_witness:
  "distinct (map_keys (cache full_cache))
   \<and> ''a'' \<in> set (map_keys (cache full_cache))
   \<and> map_get ''a'' (cache (set_cache full_cache ''a'' (JStr ''new'') None 3000 3000)) =
           Some \<lparr>data = JStr ''new'', etag = ''md5-new'', expiresAt = 3603000, createdAt = 3000\<rparr>
   \<and> maxSize full_cache \<le> map_size (cache full_cache)
   \<and> map_keys (cache (set_cache full_cache ''a'' (JStr ''new'') None 3000 3000)) = [''b'', ''a'']
   \<and> distinct (map_keys (cache roomy_cache))
   \<and> ''a'' \<in> set (map_keys (cache roomy_cache))
   \<and> map_size (cache roomy_cache) < maxSize roomy_cache
   \<and> map_get ''a'' (cache (set_cache roomy_cache ''a'' (JStr ''new'') None 3000 3000)) =
           Some \<lparr>data = JStr ''new'', etag = ''md5-new'', expiresAt = 3603000, createdAt = 3000\<rparr>
   \<and> map_keys (cache (set_cache roomy_cache ''a'' (JStr ''new'') None 3000 3000)) = [''a'', ''b'']"
  using restore_existing_key [of full_cache "''a''" "JStr ''new''" None 3000 3000]
    restore_existing_key [of roomy_cache "''a''" "JStr ''new''" None 3000 3000]
  by (simp add: full_cache_eval roomy_cache_eval map_keys_def map_size_def)

lemma ttlSettings_values:
  "metadata ttlSettings = 604800000" "geojson ttlSettings = 2592000000"
  "municipalities ttlSettings = 604800000" "health ttlSettings = 3600000"
  "default_tier ttlSettings = 3600000"
  by (simp_all add: ttlSettings_def)

subsection \<open>C6: the TTL tier of a path\<close>

text \<open>
  Claim C6 says that every path containing both the GeoJSON marker and the municipalities
  marker gets the 30-day tier.  The indices marker is tested first: a GeoJSON path whose
  query string contains \<open>/municipalities/indices\<close> holds both markers and gets the
  7-day tier.
\<close>
theorem geojson_and_municipalities_markers_counterexample:
  "includes_str three_marker_url ''/climate-data/geojson/''
   \<and> includes_str three_marker_url ''/municipalities''
   \<and> determineTTL three_marker_url = 7 * 24 * 60 * 60 * 1000
   \<and> determineTTL three_marker_url \<noteq> 30 * 24 * 60 * 60 * 1000"
  by (simp add: three_marker_url_def determineTTL_def ttlSettings_values)

text \<open>
  Claim C6, amended.  \<open>determineTTL\<close> is a function of the path alone, evaluated in the
  order indices marker (7 days), GeoJSON marker (30 days), municipalities marker (7 days),
  health marker (1 hour), default (1 hour); and every path that contains the GeoJSON and
  the municipalities marker and does not contain the indices marker gets the 30-day tier.
\<close>
theorem determineTTL_priority_order:
  "determineTTL url =
     (if includes_str url ''/indices'' then 7 * 24 * 60 * 60 * 1000
      else if includes_str url ''/climate-data/geojson/'' then 30 * 24 * 60 * 60 * 1000
      else if includes_str url ''/municipalities'' then 7 * 24 * 60 * 60 * 1000
      else if includes_str url ''/health'' then 60 * 60 * 1000
      else 60 * 60 * 1000)
   \<and> (includes_str url ''/climate-data/geojson/'' \<and> includes_str url ''/municipalities''
        \<and> \<not> includes_str url ''/indices'' \<longrightarrow> determineTTL url = 30 * 24 * 60 * 60 * 1000)"
  by (simp add: determineTTL_def ttlSettings_values)

theorem determineTTL_priority_order_witness:
  "includes_str two_marker_url ''/climate-data/geojson/''
   \<and> includes_str two_marker_url ''/municipalities''
   \<and> \<not> includes_str two_marker_url ''/indices''
   \<and> determineTTL two_marker_url = 2592000000"
  using determineTTL_priority_order [of two_marker_url]
  by (simp add: two_marker_url_def)

lemma cdd_cache_eval:
  "cache cdd_cache =
     [(''GET:/api/climate-data/geojson/ssp245/near-term_2021-2040/cdd'',
       \<lparr>data = JStr ''cdd-features'', etag = ''md5-cdd-features'',
         expiresAt = 2592001000, createdAt = 1000\<rparr>)]"
  "maxSize cdd_cache = 2" "hits cdd_cache = 0" "misses cdd_cache = 0"
  by (simp_all add: cdd_cache_def cdd_url_def small_cache_def new_InMemoryCache_def set_cache_def
      map_size_def delete_first_key_def map_keys_def generateETag_def Let_def)

lemma get_hit:
  "map_get key (cache c) = Some it \<Longrightarrow> now \<le> expiresAt it \<Longrightarrow>
     get c key now = (Some it, c\<lparr>hits := hits c + 1\<rparr>)"
  by (simp add: get_def)

lemma header_lookups [simp]:
  "map_get n (res_headers (setHeader r n v)) = Some v"
  "n' \<noteq> n \<Longrightarrow> map_get n' (res_headers (setHeader r n v)) = map_get n' (res_headers r)"
  "statusCode (setHeader r n v) = statusCode r"
  "body (setHeader r n v) = body r"
  "finished (setHeader r n v) = finished r"
  by (simp_all add: setHeader_def map_get_map_set_same map_get_map_set_other)

lemma cache_control_tiers:
  "getCacheControlHeader (determineTTL url) =
     (if includes_str url ''/indices'' then ''public, max-age=604800''
      else if includes_str url ''/climate-data/geojson/'' then ''public, max-age=2592000''
      else if includes_str url ''/municipalities'' then ''public, max-age=604800''
      else ''public, max-age=3600'')"
  by (simp add: getCacheControlHeader_def determineTTL_def ttlSettings_def string_of_int_def
      string_of_nat.simps digit_char_def)

subsection \<open>C9: a 304 answer is a hit\<close>

text \<open>
  Claim C9.  A request that the middleware answers with 304 (a GET request outside the
  cache-management paths, whose key has an unexpired entry and whose \<open>if-none-match\<close>
  header equals the stored fingerprint) increments the hit counter by exactly 1 and
  leaves the miss counter alone, because \<open>get\<close> counts before the header is examined;
  \<open>getStats\<close> then reports one hit more, and the hit rate is computed from it.
\<close>
theorem not_modified_counts_as_hit:
  assumes "req_method req = ''GET''"
    and "\<not> includes_str (originalUrl req) ''/cache/''"
    and "map_get (generateKey req) (cache c) = Some it"
    and "now \<le> expiresAt it"
    and "map_get ''if-none-match'' (req_headers req) = Some (etag it)"
  shows "(\<exists>r. snd (middleware c req res now) = Responded r \<and> statusCode r = 304)
       \<and> hits (fst (middleware c req res now)) = hits c + 1
       \<and> misses (fst (middleware c req res now)) = misses c
       \<and> stat_hits (getStats (fst (middleware c req res now))) = stat_hits (getStats c) + 1
       \<and> stat_misses (getStats (fst (middleware c req res now))) = stat_misses (getStats c)
       \<and> stat_hitRate (getStats (fst (middleware c req res now))) =
           Some (hits c + 1, hits c + 1 + misses c)"
  using assms
  by (simp add: middleware_def get_hit Let_def status_def end_response_def getStats_def)

theorem not_modified_counts_as_hit_witness:
  "req_method (get_request cdd_url [(''if-none-match'', ''md5-cdd-features'')]) = ''GET''
   \<and> \<not> includes_str (originalUrl (get_request cdd_url [(''if-none-match'', ''md5-cdd-features'')])) ''/cache/''
   \<and> map_get (generateKey (get_request cdd_url [(''if-none-match'', ''md5-cdd-features'')])) (cache cdd_cache)
       = Some \<lparr>data = JStr ''cdd-features'', etag = ''md5-cdd-features'',
               expiresAt = 2592001000, createdAt = 1000\<rparr>
   \<and> (5000::int) \<le> 2592001000
   \<and> map_get ''if-none-match'' (req_headers (get_request cdd_url [(''if-none-match'', ''md5-cdd-features'')]))
       = Some ''md5-cdd-features''
   \<and> (\<exists>r. snd (middleware cdd_cache (get_request cdd_url [(''if-none-match'', ''md5-cdd-features'')])
                  fresh_response 5000) = Responded r \<and> statusCode r = 304)
   \<and> hits (fst (middleware cdd_cache (get_request cdd_url [(''if-none-match'', ''md5-cdd-features'')])
                  fresh_response 5000)) = 1
   \<and> misses (fst (middleware cdd_cache (get_request cdd_url [(''if-none-match'', ''md5-cdd-features'')])
                  fresh_response 5000)) = 0
   \<and> stat_hitRate (getStats (fst (middleware cdd_cache
         (get_request cdd_url [(''if-none-match'', ''md5-cdd-features'')]) fresh_response 5000))) =
       Some (1, 1)"
  using not_modified_counts_as_hit [where req = "get_request cdd_url [(''if-none-match'', ''md5-cdd-features'')]"
      and it = "\<lparr>data = JStr ''cdd-features'', etag = ''md5-cdd-features'',
         expiresAt = 2592001000, createdAt = 1000\<rparr>"
      and c = cdd_cache and now = 5000 and res = fresh_response]
  by (simp add: get_request_def cdd_url_def generateKey_def cdd_cache_eval getStats_def Let_def)

lemma store_cache_set:
  "store (cache_set e w key d t) =
     set_cache (store w) key d (Some t) (clock e (ticks w)) (clock e (ticks w + 1))"
  "svc (cache_set e w key d t) = svc w"
  "ticks (cache_set e w key d t) = ticks w + 2"
  by (simp_all add: cache_set_def Date_now_def)

lemma counters_add [simp]:
  "store (add_warmed n w) = store w" "store (add_failed n w) = store w"
  "warmedCount (svc (add_warmed n w)) = warmedCount (svc w) + n"
  "failedCount (svc (add_warmed n w)) = failedCount (svc w)"
  "warmedCount (svc (add_failed n w)) = warmedCount (svc w)"
  "failedCount (svc (add_failed n w)) = failedCount (svc w) + n"
  by (simp_all add: add_warmed_def add_failed_def)

lemma map_keys_set_cache_below:
  assumes "distinct (map_keys (cache c))" and "map_size (cache c) < maxSize c"
  shows "map_keys (cache (set_cache c key d customTtl now1 now2)) =
           (if key \<in> set (map_keys (cache c)) then map_keys (cache c) else map_keys (cache c) @ [key])"
  using assms by (simp add: map_keys_set_cache Let_def)

lemma map_size_keys: "map_size m = length (map_keys m)"
  by (simp add: map_size_def map_keys_def)

section \<open>Facts about the warmer\<close>

text \<open>
  One \<open>warmEntry\<close> whose query yields a truthy feature collection, on a cache below
  its capacity: the entry is stored under the GeoJSON key, nothing is evicted, and one
  more entry counts as warmed.
\<close>

lemma warmEntry_good:
  assumes "buildGeoJSON e sc pe i = Inr g" and "truthy g"
    and "distinct (map_keys (cache (store w)))"
    and "map_size (cache (store w)) < maxSize (store w)"
  shows "\<exists>w'. warmEntry e w sc pe i = Inr (w', True)
            \<and> set (map_keys (cache (store w'))) = insert (geojson_key sc pe i) (set (map_keys (cache (store w))))
            \<and> distinct (map_keys (cache (store w')))
            \<and> map_size (cache (store w')) \<le> map_size (cache (store w)) + 1
            \<and> maxSize (store w') = maxSize (store w)
            \<and> warmedCount (svc w') = warmedCount (svc w) + 1
            \<and> failedCount (svc w') = failedCount (svc w)"
proof -
  let ?d = "JObj [(''success'', JBool True), (''data'', g)]"
  let ?w1 = "cache_set e w (geojson_key sc pe i) ?d 2592000000"
  let ?w' = "add_warmed 1 ?w1"
  have run: "warmEntry e w sc pe i = Inr (?w', True)"
    using assms(1,2) by (simp add: warmEntry_def Let_def)
  have ks: "map_keys (cache (store ?w1)) =
      (if geojson_key sc pe i \<in> set (map_keys (cache (store w))) then map_keys (cache (store w))
       else map_keys (cache (store w)) @ [geojson_key sc pe i])"
    using assms(3,4) by (simp add: store_cache_set map_keys_set_cache_below)
  have "set (map_keys (cache (store ?w'))) = insert (geojson_key sc pe i) (set (map_keys (cache (store w))))"
    by (auto simp: ks)
  moreover have "distinct (map_keys (cache (store ?w')))"
    using assms(3) by (simp add: ks)
  moreover have "map_size (cache (store ?w')) \<le> map_size (cache (store w)) + 1"
    by (simp add: map_size_keys ks)
  moreover have "maxSize (store ?w') = maxSize (store w)"
    by (simp add: store_cache_set)
  moreover have "warmedCount (svc ?w') = warmedCount (svc w) + 1"
    by (simp add: store_cache_set)
  moreover have "failedCount (svc ?w') = failedCount (svc w)"
    by (simp add: store_cache_set)
  ultimately show ?thesis using run by blast
qed

lemma warmEntries_good:
  assumes "\<forall>i\<in>set xs. \<exists>g. buildGeoJSON e sc pe i = Inr g \<and> truthy g"
    and "distinct (map_keys (cache (store w)))"
    and "map_size (cache (store w)) + length xs \<le> maxSize (store w)"
  shows "\<exists>w'. warmEntries e w sc pe xs = Inr w'
            \<and> set (map_keys (cache (store w'))) = set (map_keys (cache (store w))) \<union> geojson_key sc pe ` set xs
            \<and> distinct (map_keys (cache (store w')))
            \<and> map_size (cache (store w')) \<le> map_size (cache (store w)) + length xs
            \<and> maxSize (store w') = maxSize (store w)
            \<and> warmedCount (svc w') = warmedCount (svc w) + length xs
            \<and> failedCount (svc w') = failedCount (svc w)"
  using assms
proof (induction xs arbitrary: w)
  case Nil
  then show ?case by simp
next
  case (Cons i xs)
  from Cons.prems(1) obtain g where g: "buildGeoJSON e sc pe i = Inr g" "truthy g" by auto
  from Cons.prems(3) have below: "map_size (cache (store w)) < maxSize (store w)" by simp
  from warmEntry_good [OF g Cons.prems(2) below]
  obtain w1 where w1: "warmEntry e w sc pe i = Inr (w1, True)"
    "set (map_keys (cache (store w1))) = insert (geojson_key sc pe i) (set (map_keys (cache (store w))))"
    "distinct (map_keys (cache (store w1)))"
    "map_size (cache (store w1)) \<le> map_size (cache (store w)) + 1"
    "maxSize (store w1) = maxSize (store w)"
    "warmedCount (svc w1) = warmedCount (svc w) + 1"
    "failedCount (svc w1) = failedCount (svc w)"
    by blast
  have rest: "\<forall>i\<in>set xs. \<exists>g. buildGeoJSON e sc pe i = Inr g \<and> truthy g"
    using Cons.prems(1) by simp
  have room: "map_size (cache (store w1)) + length xs \<le> maxSize (store w1)"
    using w1(4,5) Cons.prems(3) by simp
  from Cons.IH [OF rest w1(3) room]
  obtain w' where w': "warmEntries e w1 sc pe xs = Inr w'"
    "set (map_keys (cache (store w'))) = set (map_keys (cache (store w1))) \<union> geojson_key sc pe ` set xs"
    "distinct (map_keys (cache (store w')))"
    "map_size (cache (store w')) \<le> map_size (cache (store w1)) + length xs"
    "maxSize (store w') = maxSize (store w1)"
    "warmedCount (svc w') = warmedCount (svc w1) + length xs"
    "failedCount (svc w') = failedCount (svc w1)"
    by blast
  have "warmEntries e w sc pe (i # xs) = Inr w'" using w1(1) w'(1) by simp
  moreover have "set (map_keys (cache (store w'))) =
      set (map_keys (cache (store w))) \<union> geojson_key sc pe ` set (i # xs)"
    using w'(2) w1(2) by auto
  moreover have "map_size (cache (store w')) \<le> map_size (cache (store w)) + length (i # xs)"
    using w'(4) w1(4) by simp
  moreover have "maxSize (store w') = maxSize (store w)" using w'(5) w1(5) by simp
  moreover have "warmedCount (svc w') = warmedCount (svc w) + length (i # xs)"
    using w'(6) w1(6) by simp
  moreover have "failedCount (svc w') = failedCount (svc w)" using w'(7) w1(7) by simp
  ultimately show ?case using w'(3) by blast
qed

lemma warmBatches_good:
  assumes "\<forall>b. mset (completion e b) = mset b"
    and "\<forall>i\<in>set (concat bs). \<exists>g. buildGeoJSON e sc pe i = Inr g \<and> truthy g"
    and "distinct (map_keys (cache (store w)))"
    and "map_size (cache (store w)) + length (concat bs) \<le> maxSize (store w)"
  shows "\<exists>w'. warmBatches e w sc pe bs = Inr w'
            \<and> set (map_keys (cache (store w'))) = set (map_keys (cache (store w))) \<union> geojson_key sc pe ` set (concat bs)
            \<and> distinct (map_keys (cache (store w')))
            \<and> map_size (cache (store w')) \<le> map_size (cache (store w)) + length (concat bs)
            \<and> maxSize (store w') = maxSize (store w)
            \<and> warmedCount (svc w') = warmedCount (svc w) + length (concat bs)
            \<and> failedCount (svc w') = failedCount (svc w)"
  using assms(2,3,4)
proof (induction bs arbitrary: w)
  case Nil
  then show ?case by simp
next
  case (Cons b bs)
  let ?b' = "completion e b"
  have perm: "mset ?b' = mset b" using assms(1) by blast
  have setb: "set ?b' = set b" using perm by (rule mset_eq_setD)
  have lenb: "length ?b' = length b" using perm by (rule mset_eq_length)
  have good_b: "\<forall>i\<in>set ?b'. \<exists>g. buildGeoJSON e sc pe i = Inr g \<and> truthy g"
    using Cons.prems(1) setb by simp
  have room_b: "map_size (cache (store w)) + length ?b' \<le> maxSize (store w)"
    using Cons.prems(3) lenb by simp
  from warmEntries_good [OF good_b Cons.prems(2) room_b]
  obtain w1 where w1: "warmEntries e w sc pe ?b' = Inr w1"
    "set (map_keys (cache (store w1))) = set (map_keys (cache (store w))) \<union> geojson_key sc pe ` set ?b'"
    "distinct (map_keys (cache (store w1)))"
    "map_size (cache (store w1)) \<le> map_size (cache (store w)) + length ?b'"
    "maxSize (store w1) = maxSize (store w)"
    "warmedCount (svc w1) = warmedCount (svc w) + length ?b'"
    "failedCount (svc w1) = failedCount (svc w)"
    by blast
  have rest: "\<forall>i\<in>set (concat bs). \<exists>g. buildGeoJSON e sc pe i = Inr g \<and> truthy g"
    using Cons.prems(1) by simp
  have room: "map_size (cache (store w1)) + length (concat bs) \<le> maxSize (store w1)"
    using w1(4,5) Cons.prems(3) lenb by simp
  from Cons.IH [OF rest w1(3) room]
  obtain w' where w': "warmBatches e w1 sc pe bs = Inr w'"
    "set (map_keys (cache (store w'))) = set (map_keys (cache (store w1))) \<union> geojson_key sc pe ` set (concat bs)"
    "distinct (map_keys (cache (store w')))"
    "map_size (cache (store w')) \<le> map_size (cache (store w1)) + length (concat bs)"
    "maxSize (store w') = maxSize (store w1)"
    "warmedCount (svc w') = warmedCount (svc w1) + length (concat bs)"
    "failedCount (svc w') = failedCount (svc w1)"
    by blast
  have "warmBatches e w sc pe (b # bs) = Inr w'"
    using w1(1) w'(1) by (simp add: warmBatch_def)
  moreover have "set (map_keys (cache (store w'))) =
      set (map_keys (cache (store w))) \<union> geojson_key sc pe ` set (concat (b # bs))"
    using w'(2) w1(2) setb by auto
  moreover have "map_size (cache (store w')) \<le> map_size (cache (store w)) + length (concat (b # bs))"
    using w'(4) w1(4) lenb by simp
  moreover have "maxSize (store w') = maxSize (store w)" using w'(5) w1(5) by simp
  moreover have "warmedCount (svc w') = warmedCount (svc w) + length (concat (b # bs))"
    using w'(6) w1(6) lenb by simp
  moreover have "failedCount (svc w') = failedCount (svc w)" using w'(7) w1(7) by simp
  ultimately show ?case using w'(3) by blast
qed

lemma concat_batches_of_5: "concat (batches_of_5 xs) = xs"
  by (induction xs rule: batches_of_5.induct) (subst batches_of_5.simps, simp)


lemma geojson_key_inj [simp]: "geojson_key sc pe i = geojson_key sc pe j \<longleftrightarrow> i = j"
  by (simp add: geojson_key_def)

lemma metadata_keys_not_geojson [simp]:
  "''GET:/api/indices'' \<noteq> geojson_key sc pe i"
  "''GET:/api/municipalities'' \<noteq> geojson_key sc pe i"
  by (simp_all add: geojson_key_def)

lemma CLIMATE_INDICES_facts:
  "distinct CLIMATE_INDICES" "length CLIMATE_INDICES = 27"
  by (simp_all add: CLIMATE_INDICES_def)

lemma index_groups:
  "length PRIORITY_INDICES = 8"
  "length (filter (\<lambda>idx. idx \<notin> set PRIORITY_INDICES) CLIMATE_INDICES) = 19"
  "set PRIORITY_INDICES \<subseteq> set CLIMATE_INDICES"
  by (simp_all add: PRIORITY_INDICES_def CLIMATE_INDICES_def)

lemma card_geojson_keys:
  "card (geojson_key sc pe ` set CLIMATE_INDICES) = 27"
proof -
  have "inj_on (geojson_key sc pe) (set CLIMATE_INDICES)" by (simp add: inj_on_def)
  then have "card (geojson_key sc pe ` set CLIMATE_INDICES) = card (set CLIMATE_INDICES)"
    by (rule card_image)
  also have "\<dots> = length CLIMATE_INDICES"
    using CLIMATE_INDICES_facts(1) by (rule distinct_card)
  finally show ?thesis by (simp add: CLIMATE_INDICES_facts)
qed

lemma warmTier1_good:
  assumes "\<forall>b. mset (completion e b) = mset b"
    and "\<forall>i\<in>set CLIMATE_INDICES.
           \<exists>g. buildGeoJSON e ''ssp245'' ''near-term_2021-2040'' i = Inr g \<and> truthy g"
    and "distinct (map_keys (cache (store w)))"
    and "map_size (cache (store w)) + 27 \<le> maxSize (store w)"
  shows "\<exists>w'. warmTier1 e w = Inr w'
            \<and> set (map_keys (cache (store w'))) =
                set (map_keys (cache (store w)))
                \<union> geojson_key ''ssp245'' ''near-term_2021-2040'' ` set CLIMATE_INDICES
            \<and> distinct (map_keys (cache (store w')))
            \<and> maxSize (store w') = maxSize (store w)
            \<and> warmedCount (svc w') = warmedCount (svc w) + 27
            \<and> failedCount (svc w') = failedCount (svc w)"
proof -
  let ?sc = "''ssp245''" and ?pe = "''near-term_2021-2040''"
  let ?rem = "filter (\<lambda>idx. idx \<notin> set PRIORITY_INDICES) CLIMATE_INDICES"
  have good_p: "\<forall>i\<in>set (concat (batches_of_5 PRIORITY_INDICES)).
      \<exists>g. buildGeoJSON e ?sc ?pe i = Inr g \<and> truthy g"
    using assms(2) index_groups(3) by (auto simp: concat_batches_of_5)
  have room_p: "map_size (cache (store w)) + length (concat (batches_of_5 PRIORITY_INDICES))
      \<le> maxSize (store w)"
    using assms(4) by (simp add: concat_batches_of_5 index_groups)
  from warmBatches_good [OF assms(1) good_p assms(3) room_p]
  obtain w1 where w1: "warmBatches e w ?sc ?pe (batches_of_5 PRIORITY_INDICES) = Inr w1"
    "set (map_keys (cache (store w1))) =
       set (map_keys (cache (store w))) \<union> geojson_key ?sc ?pe ` set PRIORITY_INDICES"
    "distinct (map_keys (cache (store w1)))"
    "map_size (cache (store w1)) \<le> map_size (cache (store w)) + 8"
    "maxSize (store w1) = maxSize (store w)"
    "warmedCount (svc w1) = warmedCount (svc w) + 8"
    "failedCount (svc w1) = failedCount (svc w)"
    by (auto simp: concat_batches_of_5 index_groups)
  have good_r: "\<forall>i\<in>set (concat (batches_of_5 ?rem)).
      \<exists>g. buildGeoJSON e ?sc ?pe i = Inr g \<and> truthy g"
    using assms(2) by (auto simp: concat_batches_of_5)
  have room_r: "map_size (cache (store w1)) + length (concat (batches_of_5 ?rem))
      \<le> maxSize (store w1)"
    using assms(4) w1(4,5) by (simp add: concat_batches_of_5 index_groups)
  from warmBatches_good [OF assms(1) good_r w1(3) room_r]
  obtain w2 where w2: "warmBatches e w1 ?sc ?pe (batches_of_5 ?rem) = Inr w2"
    "set (map_keys (cache (store w2))) =
       set (map_keys (cache (store w1))) \<union> geojson_key ?sc ?pe ` set ?rem"
    "distinct (map_keys (cache (store w2)))"
    "maxSize (store w2) = maxSize (store w1)"
    "warmedCount (svc w2) = warmedCount (svc w1) + 19"
    "failedCount (svc w2) = failedCount (svc w1)"
    by (auto simp: concat_batches_of_5 index_groups)
  have "?rem \<noteq> []" using index_groups(2) by auto
  then have run: "warmTier1 e w = Inr w2"
    using w1(1) w2(1) by (simp add: warmTier1_def Let_def)
  have "set PRIORITY_INDICES \<union> set ?rem = set CLIMATE_INDICES"
    using index_groups(3) by auto
  then have "geojson_key ?sc ?pe ` set PRIORITY_INDICES \<union> geojson_key ?sc ?pe ` set ?rem
      = geojson_key ?sc ?pe ` set CLIMATE_INDICES"
    by (metis image_Un)
  then have keys: "set (map_keys (cache (store w2))) =
      set (map_keys (cache (store w))) \<union> geojson_key ?sc ?pe ` set CLIMATE_INDICES"
    using w1(2) w2(2) by (simp add: Un_assoc)
  have "maxSize (store w2) = maxSize (store w)" using w1(5) w2(4) by simp
  moreover have "warmedCount (svc w2) = warmedCount (svc w) + 27" using w1(6) w2(5) by simp
  moreover have "failedCount (svc w2) = failedCount (svc w)" using w1(7) w2(6) by simp
  ultimately show ?thesis using run keys w2(3) by blast
qed

subsection \<open>C8: a warm run on an empty cache\<close>

text \<open>
  Claim C8.  Run on an empty cache of maximum size at least 29, with both metadata
  queries answered and every one of the 27 GeoJSON queries for \<open>ssp245\<close> and
  \<open>near-term_2021-2040\<close> yielding a truthy feature collection, and whatever the order
  in which the queries of a batch complete, \<open>warmCache\<close> returns normally with exactly
  29 entries in the cache: the two metadata keys and the 27 pairwise different GeoJSON
  keys, one per index; it reports 29 warmed and 0 failed.
\<close>
theorem warm_run_installs_29_entries:
  assumes "cache (store w) = []"
    and "29 \<le> maxSize (store w)"
    and "query e ActiveIndicesQuery = Inr indicesRows"
    and "query e MunicipalitiesQuery = Inr municRows"
    and "\<forall>i\<in>set CLIMATE_INDICES.
           \<exists>g. buildGeoJSON e ''ssp245'' ''near-term_2021-2040'' i = Inr g \<and> truthy g"
    and "\<forall>b. mset (completion e b) = mset b"
  shows "\<exists>w'. warmCache e w = Inr w'
            \<and> map_size (cache (store w')) = 29
            \<and> set (map_keys (cache (store w'))) =
                {''GET:/api/indices'', ''GET:/api/municipalities''}
                \<union> geojson_key ''ssp245'' ''near-term_2021-2040'' ` set CLIMATE_INDICES
            \<and> card (geojson_key ''ssp245'' ''near-term_2021-2040'' ` set CLIMATE_INDICES) = 27
            \<and> warmedCount (svc w') = 29
            \<and> failedCount (svc w') = 0"
proof -
  let ?geo = "geojson_key ''ssp245'' ''near-term_2021-2040'' ` set CLIMATE_INDICES"
  define w1 where "w1 = (snd (Date_now e w))\<lparr>svc := (svc (snd (Date_now e w)))
      \<lparr>startTime := Some (fst (Date_now e w)), warmedCount := 0, failedCount := 0\<rparr>\<rparr>"
  define wa where "wa = cache_set e w1 ''GET:/api/indices'' (envelope indicesRows) 604800000"
  define wb where "wb = cache_set e wa ''GET:/api/municipalities'' (envelope municRows) 604800000"
  define w2 where "w2 = add_warmed 2 wb"
  have w1: "store w1 = store w" "warmedCount (svc w1) = 0" "failedCount (svc w1) = 0"
    by (simp_all add: w1_def Date_now_def)
  have meta: "warmMetadata e w1 = Inr w2"
    using assms(3,4) by (simp add: warmMetadata_def Let_def w2_def wb_def wa_def)
  have k0: "map_keys (cache (store w)) = []" using assms(1) by (simp add: map_keys_def)
  then have k1: "map_keys (cache (store w1)) = []" by (simp add: w1)
  have "map_keys (cache (store wa)) =
      (if ''GET:/api/indices'' \<in> set (map_keys (cache (store w1))) then map_keys (cache (store w1))
       else map_keys (cache (store w1)) @ [''GET:/api/indices''])"
    unfolding wa_def store_cache_set(1)
    using assms(2) by (intro map_keys_set_cache_below) (simp_all add: map_size_keys k0 w1)
  then have ka: "map_keys (cache (store wa)) = [''GET:/api/indices'']"
    by (simp add: k1)
  have ma: "maxSize (store wa) = maxSize (store w)" by (simp add: wa_def store_cache_set w1)
  have "map_keys (cache (store wb)) =
      (if ''GET:/api/municipalities'' \<in> set (map_keys (cache (store wa))) then map_keys (cache (store wa))
       else map_keys (cache (store wa)) @ [''GET:/api/municipalities''])"
    unfolding wb_def store_cache_set(1)
    using assms(2) by (intro map_keys_set_cache_below) (simp_all add: map_size_keys ka ma)
  then have kb: "map_keys (cache (store wb)) = [''GET:/api/indices'', ''GET:/api/municipalities'']"
    by (simp add: ka)
  have mb: "maxSize (store wb) = maxSize (store w)" by (simp add: wb_def store_cache_set ma)
  have k2: "map_keys (cache (store w2)) = [''GET:/api/indices'', ''GET:/api/municipalities'']"
    using kb by (simp add: w2_def)
  have c2: "warmedCount (svc w2) = 2" "failedCount (svc w2) = 0" "maxSize (store w2) = maxSize (store w)"
    using mb by (simp_all add: w2_def wb_def wa_def store_cache_set w1)
  have d2: "distinct (map_keys (cache (store w2)))" by (simp add: k2)
  have room: "map_size (cache (store w2)) + 27 \<le> maxSize (store w2)"
    using assms(2) by (simp add: map_size_keys k2 c2)
  from warmTier1_good [OF assms(6,5) d2 room]
  obtain w3 where w3: "warmTier1 e w2 = Inr w3"
    "set (map_keys (cache (store w3))) = set (map_keys (cache (store w2))) \<union> ?geo"
    "distinct (map_keys (cache (store w3)))"
    "warmedCount (svc w3) = warmedCount (svc w2) + 27"
    "failedCount (svc w3) = failedCount (svc w2)"
    by blast
  define w' where "w' = snd (Date_now e w3)"
  have run: "warmCache e w = Inr w'"
    using meta w3(1) by (simp add: warmCache_def Let_def split_beta w1_def w'_def)
  have st: "store w' = store w3" "svc w' = svc w3" by (simp_all add: w'_def Date_now_def)
  have keys: "set (map_keys (cache (store w3))) =
      {''GET:/api/indices'', ''GET:/api/municipalities''} \<union> ?geo"
    using w3(2) by (simp add: k2)
  have "card ({''GET:/api/indices'', ''GET:/api/municipalities''} \<union> ?geo) = 29"
    by (simp add: card_insert_if card_geojson_keys image_iff)
  then have "length (map_keys (cache (store w3))) = 29"
    using distinct_card [OF w3(3)] keys by simp
  then have size: "map_size (cache (store w3)) = 29" by (simp add: map_size_keys)
  have warmed: "warmedCount (svc w3) = 29" using w3(4) by (simp add: c2)
  have failed: "failedCount (svc w3) = 0" using w3(5) by (simp add: c2)
  from run size keys warmed failed show ?thesis
    by (simp add: st card_geojson_keys)
qed

theorem warm_run_witness:
  "cache (store sample_world) = []
   \<and> 29 \<le> maxSize (store sample_world)
   \<and> completion sample_env [''a'', ''b''] = [''b'', ''a'']
   \<and> (\<exists>w'. warmCache sample_env sample_world = Inr w'
            \<and> map_size (cache (store w')) = 29
            \<and> set (map_keys (cache (store w'))) =
                {''GET:/api/indices'', ''GET:/api/municipalities''}
                \<union> geojson_key ''ssp245'' ''near-term_2021-2040'' ` set CLIMATE_INDICES
            \<and> card (geojson_key ''ssp245'' ''near-term_2021-2040'' ` set CLIMATE_INDICES) = 27
            \<and> warmedCount (svc w') = 29
            \<and> failedCount (svc w') = 0)"
  using warm_run_installs_29_entries [of sample_world sample_env
      "[[(''index_code'', JStr ''cdd'')]]" "[[(''municipality_name'', JStr ''Cape Town'')]]"]
  by (simp add: sample_world_def sample_env_def new_InMemoryCache_def buildGeoJSON_def sample_fc_def)

lemma envelope_not_raw: "JObj [(''success'', JBool True), (''data'', g)] \<noteq> g"
proof
  assume "JObj [(''success'', JBool True), (''data'', g)] = g"
  then have "size (JObj [(''success'', JBool True), (''data'', g)]) = size g" by simp
  then show False by simp
qed

lemma warmEntry_total: "\<exists>w' ok. warmEntry e w sc pe i = Inr (w', ok)"
  by (auto simp: warmEntry_def Let_def split: sum.splits)

lemma warmEntries_total: "\<exists>w'. warmEntries e w sc pe xs = Inr w'"
proof (induction xs arbitrary: w)
  case Nil
  then show ?case by simp
next
  case (Cons i xs)
  obtain w1 ok where "warmEntry e w sc pe i = Inr (w1, ok)" using warmEntry_total by blast
  then show ?case using Cons.IH [of w1] by simp
qed

lemma warmBatches_total: "\<exists>w'. warmBatches e w sc pe bs = Inr w'"
proof (induction bs arbitrary: w)
  case Nil
  then show ?case by simp
next
  case (Cons b bs)
  obtain w1 where "warmBatch e w sc pe b = Inr w1"
    using warmEntries_total [of e w sc pe "completion e b"] by (auto simp: warmBatch_def)
  then show ?case using Cons.IH [of w1] by simp
qed

lemma warmTier1_total: "\<exists>w'. warmTier1 e w = Inr w'"
proof -
  obtain w1 where w1: "warmBatches e w ''ssp245'' ''near-term_2021-2040'' (batches_of_5 PRIORITY_INDICES) = Inr w1"
    using warmBatches_total by blast
  obtain w2 where "warmBatches e w1 ''ssp245'' ''near-term_2021-2040''
      (batches_of_5 (filter (\<lambda>idx. idx \<notin> set PRIORITY_INDICES) CLIMATE_INDICES)) = Inr w2"
    using warmBatches_total by blast
  with w1 show ?thesis by (simp add: warmTier1_def Let_def)
qed


lemma warmMetadata_error:
  assumes "isl (query e ActiveIndicesQuery) \<or> isl (query e MunicipalitiesQuery)"
  shows "\<exists>w1. warmMetadata e w = Inr w1
            \<and> warmedCount (svc w1) = warmedCount (svc w)
            \<and> failedCount (svc w1) = failedCount (svc w) + 2"
  using assms
  by (auto simp: warmMetadata_def Let_def store_cache_set split: sum.splits)

lemma warmMetadata_indices_error:
  "query e ActiveIndicesQuery = Inl err \<Longrightarrow> warmMetadata e w = Inr (add_failed 2 w)"
  by (simp add: warmMetadata_def)

subsection \<open>C2: a hard error in the metadata phase\<close>

text \<open>
  Claim C2 says that a rejected data-access call in the metadata phase aborts the warm run
  and reaches the caller of \<open>warmCache\<close>.  With the index metadata statement rejected
  and everything else answered, \<open>warmCache\<close> returns normally, the GeoJSON phase has
  run (27 entries stored and counted as warmed) and the error shows only as 2 failed.
\<close>
theorem metadata_error_counterexample:
  "isl (query failing_env ActiveIndicesQuery)
   \<and> \<not> isl (warmCache failing_env sample_world)
   \<and> map_size (cache (store (projr (warmCache failing_env sample_world)))) = 27
   \<and> warmedCount (svc (projr (warmCache failing_env sample_world))) = 27
   \<and> failedCount (svc (projr (warmCache failing_env sample_world))) = 2"
proof -
  let ?geo = "geojson_key ''ssp245'' ''near-term_2021-2040'' ` set CLIMATE_INDICES"
  define w1 where "w1 = (snd (Date_now failing_env sample_world))\<lparr>svc := (svc (snd (Date_now failing_env sample_world)))
      \<lparr>startTime := Some (fst (Date_now failing_env sample_world)), warmedCount := 0, failedCount := 0\<rparr>\<rparr>"
  define w2 where "w2 = add_failed 2 w1"
  have q: "query failing_env ActiveIndicesQuery = Inl (QueryError ''connection refused'')"
    by (simp add: failing_env_def)
  have meta: "warmMetadata failing_env w1 = Inr w2"
    unfolding w2_def using q by (rule warmMetadata_indices_error)
  have w2: "cache (store w2) = []" "maxSize (store w2) = 400"
    "warmedCount (svc w2) = 0" "failedCount (svc w2) = 2"
    by (simp_all add: w2_def w1_def Date_now_def sample_world_def new_InMemoryCache_def)
  have perm: "\<forall>b. mset (completion failing_env b) = mset b" by (simp add: failing_env_def)
  have good: "\<forall>i\<in>set CLIMATE_INDICES.
      \<exists>g. buildGeoJSON failing_env ''ssp245'' ''near-term_2021-2040'' i = Inr g \<and> truthy g"
    by (simp add: buildGeoJSON_def failing_env_def sample_fc_def)
  have d2: "distinct (map_keys (cache (store w2)))" by (simp add: w2 map_keys_def)
  have room: "map_size (cache (store w2)) + 27 \<le> maxSize (store w2)"
    by (simp add: w2 map_size_def)
  from warmTier1_good [OF perm good d2 room]
  obtain w3 where w3: "warmTier1 failing_env w2 = Inr w3"
    "set (map_keys (cache (store w3))) = set (map_keys (cache (store w2))) \<union> ?geo"
    "distinct (map_keys (cache (store w3)))"
    "warmedCount (svc w3) = warmedCount (svc w2) + 27"
    "failedCount (svc w3) = failedCount (svc w2)"
    by blast
  have run: "warmCache failing_env sample_world = Inr (snd (Date_now failing_env w3))"
    using meta w3(1) by (simp add: warmCache_def Let_def split_beta w1_def)
  have "set (map_keys (cache (store w3))) = ?geo" using w3(2) by (simp add: w2 map_keys_def)
  then have "length (map_keys (cache (store w3))) = 27"
    using distinct_card [OF w3(3)] by (simp add: card_geojson_keys)
  then have "map_size (cache (store w3)) = 27" by (simp add: map_size_keys)
  then show ?thesis using w3(4,5) by (simp add: run q w2 Date_now_def)
qed

text \<open>
  Claim C2, amended.  For every run of the warmer in which a data-access call of the
  metadata phase is rejected, the error is caught inside \<open>warmMetadata\<close>: the phase
  returns normally with nothing counted as warmed and 2 counted as failed, warming
  continues into the GeoJSON phase from that state, and \<open>warmCache\<close> returns normally
  with the state the GeoJSON phase produces; no failure reaches its caller.
\<close>
theorem metadata_error_is_caught:
  assumes "isl (query e ActiveIndicesQuery) \<or> isl (query e MunicipalitiesQuery)"
  shows "\<exists>w1 w2.
           warmMetadata e
             ((snd (Date_now e w))\<lparr>svc := (svc (snd (Date_now e w)))
                \<lparr>startTime := Some (fst (Date_now e w)), warmedCount := 0, failedCount := 0\<rparr>\<rparr>)
             = Inr w1
         \<and> warmedCount (svc w1) = 0
         \<and> failedCount (svc w1) = 2
         \<and> warmTier1 e w1 = Inr w2
         \<and> warmCache e w = Inr (snd (Date_now e w2))"
proof -
  define w0 where "w0 = (snd (Date_now e w))\<lparr>svc := (svc (snd (Date_now e w)))
      \<lparr>startTime := Some (fst (Date_now e w)), warmedCount := 0, failedCount := 0\<rparr>\<rparr>"
  have c0: "warmedCount (svc w0) = 0" "failedCount (svc w0) = 0" by (simp_all add: w0_def)
  from warmMetadata_error [OF assms, of w0]
  obtain w1 where w1: "warmMetadata e w0 = Inr w1" "warmedCount (svc w1) = 0" "failedCount (svc w1) = 2"
    by (auto simp: c0)
  obtain w2 where w2: "warmTier1 e w1 = Inr w2" using warmTier1_total by blast
  have "warmCache e w = Inr (snd (Date_now e w2))"
    using w1(1) w2 by (simp add: warmCache_def Let_def split_beta w0_def)
  with w1 w2 show ?thesis unfolding w0_def by blast
qed

theorem metadata_error_is_caught_witness:
  "isl (query failing_env ActiveIndicesQuery)
   \<and> (\<exists>w1 w2.
           warmMetadata failing_env
             (sample_world\<lparr>ticks := 1, svc := \<lparr>warmedCount = 0, failedCount = 0, startTime = Some 0\<rparr>\<rparr>)
             = Inr w1
         \<and> warmedCount (svc w1) = 0
         \<and> failedCount (svc w1) = 2
         \<and> warmTier1 failing_env w1 = Inr w2
         \<and> warmCache failing_env sample_world = Inr (snd (Date_now failing_env w2)))"
  using metadata_error_is_caught [of failing_env sample_world]
  by (simp add: failing_env_def sample_world_def Date_now_def)

text \<open>
  What the two paths store under a GeoJSON key, for any feature collection \<open>g\<close>: the
  warmer the wrapped object, the replaced \<^verbatim>\<open>res.json\<close> the body it is called with.
\<close>

lemma warmEntry_payload:
  assumes "buildGeoJSON e sc pe i = Inr g" and "truthy g"
  shows "map_get (geojson_key sc pe i) (cache (store (fst (projr (warmEntry e w sc pe i))))) =
           Some \<lparr>data = JObj [(''success'', JBool True), (''data'', g)],
                 etag = hash (store w) (JObj [(''success'', JBool True), (''data'', g)]),
                 expiresAt = clock e (ticks w) + 2592000000,
                 createdAt = clock e (ticks w + 1)\<rparr>"
  using assms
  by (simp add: warmEntry_def Let_def store_cache_set map_get_set_cache_same)

lemma json_override_payload:
  assumes "statusCode res = 200" and "t \<noteq> 0"
  shows "map_get key (cache (fst (json_override c key t res d now1 now2))) =
           Some \<lparr>data = d, etag = hash c d, expiresAt = now1 + t, createdAt = now2\<rparr>"
  using assms
  by (simp add: json_override_def Let_def map_get_set_cache_same)

lemma warmed_payload_is_never_the_collection:
  assumes "buildGeoJSON e sc pe i = Inr g" and "truthy g"
  shows "map_option data
           (map_get (geojson_key sc pe i) (cache (store (fst (projr (warmEntry e w sc pe i))))))
         \<noteq> Some g"
  using assms envelope_not_raw [of g] by (simp add: warmEntry_payload)

subsection \<open>C1: the payload the warmer stores for a GeoJSON key\<close>

text \<open>
  Claim C1.  The code does not meet it.  For \<open>ssp245\<close>, \<open>near-term_2021-2040\<close>,
  \<open>cdd\<close> and a database whose GeoJSON statements yield one feature collection:
  \<open>warmEntry\<close> stores the object \<^verbatim>\<open>{ success: true, data: <collection> }\<close> under
  the key; the route handler passes the collection itself to \<^verbatim>\<open>res.json\<close>; the key
  the middleware computes for the route is the warmer's key; served on a miss, the
  middleware stores the collection itself under that key; a request answered from the
  warmed cache gets the wrapped object as its body; and the two payloads differ.
\<close>
theorem warmed_geojson_payload_is_wrapped:
  "map_get (geojson_key ''ssp245'' ''near-term_2021-2040'' ''cdd'')
       (cache (store (fst (projr (warmEntry sample_env sample_world ''ssp245'' ''near-term_2021-2040'' ''cdd'')))))
     = Some \<lparr>data = JObj [(''success'', JBool True), (''data'', sample_fc)],
             etag = ''md5-successdata'', expiresAt = 2592000000, createdAt = 1\<rparr>
   \<and> geojson_route (query sample_env) ''ssp245'' ''near-term_2021-2040'' ''cdd'' = CallJson None sample_fc
   \<and> generateKey (get_request cdd_url []) = geojson_key ''ssp245'' ''near-term_2021-2040'' ''cdd''
   \<and> map_get (generateKey (get_request cdd_url []))
       (cache (fst (serve (store sample_world) (get_request cdd_url []) fresh_response 0
                      (geojson_route (query sample_env) ''ssp245'' ''near-term_2021-2040'' ''cdd'') 0 1)))
     = Some \<lparr>data = sample_fc, etag = ''md5-typefeatures'', expiresAt = 2592000000, createdAt = 1\<rparr>
   \<and> body (projr (snd (serve
         (store (fst (projr (warmEntry sample_env sample_world ''ssp245'' ''near-term_2021-2040'' ''cdd''))))
         (get_request cdd_url []) fresh_response 5
         (geojson_route (query sample_env) ''ssp245'' ''near-term_2021-2040'' ''cdd'') 6 7)))
     = Some (JObj [(''success'', JBool True), (''data'', sample_fc)])
   \<and> JObj [(''success'', JBool True), (''data'', sample_fc)] \<noteq> sample_fc"
  by (simp add: warmEntry_def buildGeoJSON_def sample_env_def sample_world_def sample_fc_def
      new_InMemoryCache_def cache_set_def Date_now_def add_warmed_def set_cache_def map_size_def
      generateETag_def geojson_key_def Let_def
      geojson_route_def validIndices_def generateKey_def get_request_def cdd_url_def
      serve_def middleware_def get_def determineTTL_def ttlSettings_def json_override_def
      fresh_response_def setHeader_def originalJson_def getCacheControlHeader_def)

section \<open>Facts about the keys of a produced store\<close>

lemma set_map_keys_map_set: "set (map_keys (map_set k v m)) = insert k (set (map_keys m))"
  by (auto simp: map_keys_map_set)

lemma set_map_keys_map_delete: "set (map_keys (map_delete k m)) \<subseteq> set (map_keys m)"
  by (auto simp: map_keys_map_delete)

lemma set_map_keys_delete_first_key: "set (map_keys (delete_first_key m)) \<subseteq> set (map_keys m)"
proof (cases "map_keys m")
  case Nil
  then show ?thesis by (simp add: delete_first_key_def)
next
  case (Cons k ks)
  then have "delete_first_key m = map_delete k m" by (simp add: delete_first_key_def)
  then show ?thesis using set_map_keys_map_delete [of k m] by simp
qed

lemma keys_set_cache_subset:
  "set (map_keys (cache (set_cache c key d customTtl now1 now2))) \<subseteq> insert key (set (map_keys (cache c)))"
  using set_map_keys_delete_first_key [of "cache c"]
  by (auto simp: set_cache_def Let_def set_map_keys_map_set)

lemma keys_get_subset: "set (map_keys (cache (snd (get c key now)))) \<subseteq> set (map_keys (cache c))"
  using set_map_keys_map_delete [of key "cache c"]
  by (auto simp: get_def split: option.splits)

lemma GET_key_includes:
  "includes_str (''GET:'' @ url) ''/cache/'' \<longleftrightarrow> includes_str url ''/cache/''"
  by simp

lemma keys_json_override_subset:
  "set (map_keys (cache (fst (json_override c key t res d now1 now2)))) \<subseteq> insert key (set (map_keys (cache c)))"
  using keys_set_cache_subset [of c key d "Some t" now1 now2]
  by (auto simp: json_override_def Let_def split: if_splits)

text \<open>
  The middleware only looks keys up, and the key it hands to the replaced
  \<^verbatim>\<open>res.json\<close> belongs to a path outside the cache-management paths.
\<close>

lemma middleware_keys:
  "set (map_keys (cache (fst (middleware c req res now)))) \<subseteq> set (map_keys (cache c))"
  using keys_get_subset [of c "generateKey req" now]
  by (auto simp: middleware_def Let_def split: prod.splits option.splits if_splits)

lemma middleware_patched_key:
  assumes "middleware c req res now = (c1, NextPatched r key t)"
  shows "\<not> includes_str key ''/cache/''"
  using assms
  by (auto simp: middleware_def Let_def generateKey_def split: prod.splits option.splits if_splits)

lemma keys_serve:
  assumes "k \<in> set (map_keys (cache (fst (serve c req res now h now1 now2))))"
  shows "k \<in> set (map_keys (cache c)) \<or> \<not> includes_str k ''/cache/''"
proof (cases "middleware c req res now")
  case (Pair c1 out)
  have c1: "set (map_keys (cache c1)) \<subseteq> set (map_keys (cache c))"
    using middleware_keys [of c req res now] Pair by simp
  show ?thesis
  proof (cases out)
    case (Responded r)
    with Pair assms c1 show ?thesis by (auto simp: serve_def)
  next
    case (Next r)
    with Pair assms c1 show ?thesis
      by (auto simp: serve_def split: handler_call.splits option.splits)
  next
    case (NextPatched r key t)
    with Pair have key: "\<not> includes_str key ''/cache/''"
      using middleware_patched_key by blast
    have "set (map_keys (cache (fst (serve c req res now h now1 now2)))) \<subseteq> insert key (set (map_keys (cache c1)))"
    proof (cases h)
      case (CallNext err)
      with Pair NextPatched show ?thesis by (auto simp: serve_def)
    next
      case (CallJson st d)
      show ?thesis
      proof (cases st)
        case None
        with CallJson Pair NextPatched
        have "fst (serve c req res now h now1 now2) = fst (json_override c1 key t r d now1 now2)"
          by (simp add: serve_def split_beta)
        then show ?thesis using keys_json_override_subset [of c1 key t r d now1 now2] by simp
      next
        case (Some s)
        with CallJson Pair NextPatched
        have "fst (serve c req res now h now1 now2) = fst (json_override c1 key t (status r s) d now1 now2)"
          by (simp add: serve_def split_beta)
        then show ?thesis using keys_json_override_subset [of c1 key t "status r s" d now1 now2] by simp
      qed
    qed
    with assms c1 key show ?thesis by auto
  qed
qed

text \<open>A warm run adds no keys but the two metadata keys and the 27 GeoJSON keys.\<close>

lemma keys_cache_set_subset:
  "set (map_keys (cache (store (cache_set e w key d t)))) \<subseteq> insert key (set (map_keys (cache (store w))))"
  using keys_set_cache_subset by (simp add: store_cache_set)

lemma keys_warmEntry_subset:
  assumes "warmEntry e w sc pe i = Inr (w', ok)"
  shows "set (map_keys (cache (store w'))) \<subseteq> insert (geojson_key sc pe i) (set (map_keys (cache (store w))))"
proof (cases "buildGeoJSON e sc pe i")
  case (Inl err)
  with assms show ?thesis by (auto simp: warmEntry_def Let_def)
next
  case (Inr g)
  show ?thesis
  proof (cases "truthy g")
    case True
    with Inr assms have "store w' = store (cache_set e w (geojson_key sc pe i)
        (JObj [(''success'', JBool True), (''data'', g)]) 2592000000)"
      by (auto simp: warmEntry_def Let_def)
    then show ?thesis
      using keys_cache_set_subset [of e w "geojson_key sc pe i"
          "JObj [(''success'', JBool True), (''data'', g)]" 2592000000] by simp
  next
    case False
    with Inr assms show ?thesis by (auto simp: warmEntry_def Let_def)
  qed
qed

lemma keys_warmEntries_subset:
  assumes "warmEntries e w sc pe xs = Inr w'"
  shows "set (map_keys (cache (store w'))) \<subseteq> set (map_keys (cache (store w))) \<union> geojson_key sc pe ` set xs"
  using assms
proof (induction xs arbitrary: w)
  case Nil
  then show ?case by simp
next
  case (Cons i xs)
  from Cons.prems obtain w1 ok where w1: "warmEntry e w sc pe i = Inr (w1, ok)"
    and rest: "warmEntries e w1 sc pe xs = Inr w'"
    by (auto split: sum.splits)
  from keys_warmEntry_subset [OF w1] Cons.IH [OF rest] show ?case by auto
qed

lemma keys_warmBatches_subset:
  assumes "\<forall>b. mset (completion e b) = mset b"
    and "warmBatches e w sc pe bs = Inr w'"
  shows "set (map_keys (cache (store w'))) \<subseteq> set (map_keys (cache (store w))) \<union> geojson_key sc pe ` set (concat bs)"
  using assms(2)
proof (induction bs arbitrary: w)
  case Nil
  then show ?case by simp
next
  case (Cons b bs)
  from Cons.prems obtain w1 where w1: "warmEntries e w sc pe (completion e b) = Inr w1"
    and rest: "warmBatches e w1 sc pe bs = Inr w'"
    by (auto simp: warmBatch_def split: sum.splits)
  have "set (completion e b) = set b" using assms(1) by (metis mset_eq_setD)
  with keys_warmEntries_subset [OF w1] Cons.IH [OF rest] show ?case by auto
qed

lemma keys_warmTier1_subset:
  assumes "\<forall>b. mset (completion e b) = mset b"
    and "warmTier1 e w = Inr w'"
  shows "set (map_keys (cache (store w'))) \<subseteq>
           set (map_keys (cache (store w)))
           \<union> geojson_key ''ssp245'' ''near-term_2021-2040'' ` set CLIMATE_INDICES"
proof -
  let ?rem = "filter (\<lambda>idx. idx \<notin> set PRIORITY_INDICES) CLIMATE_INDICES"
  from assms(2) obtain w1 where
    w1: "warmBatches e w ''ssp245'' ''near-term_2021-2040'' (batches_of_5 PRIORITY_INDICES) = Inr w1"
    and w2: "warmBatches e w1 ''ssp245'' ''near-term_2021-2040'' (batches_of_5 ?rem) = Inr w' \<or> w' = w1"
    by (auto simp: warmTier1_def Let_def split: sum.splits if_splits)
  have a: "set (map_keys (cache (store w1))) \<subseteq>
      set (map_keys (cache (store w))) \<union> geojson_key ''ssp245'' ''near-term_2021-2040'' ` set PRIORITY_INDICES"
    using keys_warmBatches_subset [OF assms(1) w1] by (simp add: concat_batches_of_5)
  have b: "set (map_keys (cache (store w'))) \<subseteq>
      set (map_keys (cache (store w1))) \<union> geojson_key ''ssp245'' ''near-term_2021-2040'' ` set ?rem"
    using w2 keys_warmBatches_subset [OF assms(1), of w1 _ _ "batches_of_5 ?rem" w']
    by (auto simp: concat_batches_of_5)
  from a b index_groups(3) show ?thesis by auto
qed

lemma keys_warmMetadata_subset:
  assumes "warmMetadata e w = Inr w'"
  shows "set (map_keys (cache (store w'))) \<subseteq>
           {''GET:/api/indices'', ''GET:/api/municipalities''} \<union> set (map_keys (cache (store w)))"
proof (cases "query e ActiveIndicesQuery")
  case (Inl err)
  with assms show ?thesis by (auto simp: warmMetadata_def)
next
  case (Inr indicesRows)
  define wa where "wa = cache_set e w ''GET:/api/indices'' (envelope indicesRows) 604800000"
  have a: "set (map_keys (cache (store wa))) \<subseteq> insert ''GET:/api/indices'' (set (map_keys (cache (store w))))"
    unfolding wa_def by (rule keys_cache_set_subset)
  show ?thesis
  proof (cases "query e MunicipalitiesQuery")
    case (Inl err)
    with Inr assms have "store w' = store wa" by (auto simp: warmMetadata_def Let_def wa_def)
    with a show ?thesis by auto
  next
    case (Inr municRows)
    define wb where "wb = cache_set e wa ''GET:/api/municipalities'' (envelope municRows) 604800000"
    have b: "set (map_keys (cache (store wb))) \<subseteq> insert ''GET:/api/municipalities'' (set (map_keys (cache (store wa))))"
      unfolding wb_def by (rule keys_cache_set_subset)
    from Inr \<open>query e ActiveIndicesQuery = Inr indicesRows\<close> assms
    have "store w' = store wb" by (auto simp: warmMetadata_def Let_def wa_def wb_def)
    with a b show ?thesis by auto
  qed
qed

lemma keys_warmCache_subset:
  assumes "\<forall>b. mset (completion e b) = mset b"
    and "warmCache e w = Inr w'"
  shows "set (map_keys (cache (store w'))) \<subseteq>
           {''GET:/api/indices'', ''GET:/api/municipalities''}
           \<union> geojson_key ''ssp245'' ''near-term_2021-2040'' ` set CLIMATE_INDICES
           \<union> set (map_keys (cache (store w)))"
proof -
  define w0 where "w0 = (snd (Date_now e w))\<lparr>svc := (svc (snd (Date_now e w)))
      \<lparr>startTime := Some (fst (Date_now e w)), warmedCount := 0, failedCount := 0\<rparr>\<rparr>"
  have s0: "store w0 = store w" by (simp add: w0_def Date_now_def)
  from assms(2) obtain w1 w2 where m: "warmMetadata e w0 = Inr w1"
    and t1: "warmTier1 e w1 = Inr w2" and w': "w' = snd (Date_now e w2)"
    by (auto simp: warmCache_def Let_def split_beta w0_def split: sum.splits)
  have "store w' = store w2" using w' by (simp add: Date_now_def)
  with keys_warmMetadata_subset [OF m] keys_warmTier1_subset [OF assms(1) t1] s0
  show ?thesis by auto
qed

lemma warm_keys_outside_cache_paths:
  "\<not> includes_str ''GET:/api/indices'' ''/cache/''"
  "\<not> includes_str ''GET:/api/municipalities'' ''/cache/''"
  "\<forall>i\<in>set CLIMATE_INDICES.
     \<not> includes_str (geojson_key ''ssp245'' ''near-term_2021-2040'' i) ''/cache/''"
  by (simp_all add: CLIMATE_INDICES_def geojson_key_def)

text \<open>No store the program produces holds a key of a cache-management path.\<close>

lemma produced_keys_outside_cache_paths:
  "produced c \<Longrightarrow> k \<in> set (map_keys (cache c)) \<Longrightarrow> \<not> includes_str k ''/cache/''"
proof (induction arbitrary: k rule: produced.induct)
  case (created opt_ttl opt_maxSize h)
  then show ?case by (simp add: new_InMemoryCache_def map_keys_def)
next
  case (cleared c)
  then show ?case by (simp add: clear_def map_keys_def)
next
  case (looked_up c key now)
  then show ?case using keys_get_subset [of c key now] by blast
next
  case (served c req res now h now1 now2)
  then show ?case using keys_serve [of k c req res now h now1 now2] by blast
next
  case (warmed w e w')
  from keys_warmCache_subset [OF warmed.hyps(2,3)] warmed.prems
  consider "k = ''GET:/api/indices''" | "k = ''GET:/api/municipalities''"
    | "k \<in> geojson_key ''ssp245'' ''near-term_2021-2040'' ` set CLIMATE_INDICES"
    | "k \<in> set (map_keys (cache (store w)))"
    by auto
  then show ?case
  proof cases
    case 1
    then show ?thesis by (simp only: warm_keys_outside_cache_paths) simp
  next
    case 2
    then show ?thesis by (simp only: warm_keys_outside_cache_paths) simp
  next
    case 3
    then show ?thesis using warm_keys_outside_cache_paths(3) by blast
  next
    case 4
    then show ?thesis using warmed.IH by blast
  qed
qed


lemma served_cache_eval:
  "cache served_cache =
     [(''GET:/api/climate-data/geojson/ssp245/near-term_2021-2040/cdd'',
       \<lparr>data = JStr ''cdd-features'', etag = ''md5-cdd-features'',
         expiresAt = 2592001000, createdAt = 1000\<rparr>)]"
  "hits served_cache = 0" "misses served_cache = 1"
  by (simp_all add: served_cache_def serve_def middleware_def get_def get_request_def cdd_url_def
      generateKey_def small_cache_def new_InMemoryCache_def determineTTL_def ttlSettings_def
      json_override_def fresh_response_def set_cache_def map_size_def generateETag_def Let_def)

lemma produced_served_cache: "produced served_cache"
  unfolding served_cache_def small_cache_def
  by (rule produced.served) (rule produced.created)

subsection \<open>C7: answering from the cache\<close>

text \<open>
  Claim C7.  On every store the program produces, for every GET request whose key has an
  unexpired entry: when the \<open>if-none-match\<close> header equals the stored fingerprint, the
  middleware answers with status 304, writes no body, and sets the \<open>ETag\<close> and the
  \<open>Cache-Control\<close> header of the path's tier, \<open>public, max-age=\<close> followed by
  the tier's TTL divided by 1000 and floored; when the header is missing or different,
  it answers through \<^verbatim>\<open>res.json\<close> with the stored payload, and sets the headers
  \<open>X-Cache: HIT\<close>, \<open>X-Cache-Key\<close>, \<open>ETag\<close> and the same \<open>Cache-Control\<close>.
  In that second case the body and the status of the answer are those of \<open>originalJson\<close>,
  the model of Express's \<^verbatim>\<open>res.json\<close>: the payload as the body, the status
  untouched.  A produced store holds no key of a path containing \<open>/cache/\<close>, so the
  request is one the middleware looks up.
\<close>
theorem middleware_hit:
  assumes "produced c"
    and "req_method req = ''GET''"
    and "map_get (generateKey req) (cache c) = Some it"
    and "now \<le> expiresAt it"
  shows "(map_get ''if-none-match'' (req_headers req) = Some (etag it) \<longrightarrow>
            (\<exists>r. snd (middleware c req res now) = Responded r
                 \<and> statusCode r = 304
                 \<and> body r = body res
                 \<and> finished r
                 \<and> map_get ''ETag'' (res_headers r) = Some (etag it)
                 \<and> map_get ''Cache-Control'' (res_headers r) =
                     Some (''public, max-age='' @ string_of_int (determineTTL (originalUrl req) div 1000))))
       \<and> (map_get ''if-none-match'' (req_headers req) \<noteq> Some (etag it) \<longrightarrow>
            (\<exists>r. snd (middleware c req res now) = Responded r
                 \<and> statusCode r = statusCode res
                 \<and> body r = Some (data it)
                 \<and> finished r
                 \<and> map_get ''X-Cache'' (res_headers r) = Some ''HIT''
                 \<and> map_get ''X-Cache-Key'' (res_headers r) = Some (generateKey req)
                 \<and> map_get ''ETag'' (res_headers r) = Some (etag it)
                 \<and> map_get ''Cache-Control'' (res_headers r) =
                     Some (''public, max-age='' @ string_of_int (determineTTL (originalUrl req) div 1000))))"
proof -
  from assms(3) have "generateKey req \<in> set (map_keys (cache c))"
    using map_get_None_iff [of "generateKey req" "cache c"] by auto
  with assms(1) have "\<not> includes_str (generateKey req) ''/cache/''"
    by (rule produced_keys_outside_cache_paths)
  then have outside: "\<not> includes_str (originalUrl req) ''/cache/''"
    using assms(2) by (simp add: generateKey_def)
  show ?thesis
    using assms(2) outside assms(3,4)
    by (simp add: middleware_def get_hit Let_def status_def end_response_def originalJson_def
        getCacheControlHeader_def)
qed

theorem middleware_hit_witness:
  "produced served_cache
   \<and> req_method (get_request cdd_url [(''if-none-match'', ''md5-cdd-features'')]) = ''GET''
   \<and> map_get (generateKey (get_request cdd_url [(''if-none-match'', ''md5-cdd-features'')])) (cache served_cache)
       = Some \<lparr>data = JStr ''cdd-features'', etag = ''md5-cdd-features'',
               expiresAt = 2592001000, createdAt = 1000\<rparr>
   \<and> (5000::int) \<le> 2592001000
   \<and> (\<exists>r. snd (middleware served_cache (get_request cdd_url [(''if-none-match'', ''md5-cdd-features'')])
                  fresh_response 5000) = Responded r
          \<and> statusCode r = 304
          \<and> body r = None
          \<and> finished r
          \<and> map_get ''ETag'' (res_headers r) = Some ''md5-cdd-features''
          \<and> map_get ''Cache-Control'' (res_headers r) = Some ''public, max-age=2592000'')
   \<and> (\<exists>r. snd (middleware served_cache (get_request cdd_url [(''if-none-match'', ''md5-stale'')])
                  fresh_response 5000) = Responded r
          \<and> statusCode r = 200
          \<and> body r = Some (JStr ''cdd-features'')
          \<and> finished r
          \<and> map_get ''X-Cache'' (res_headers r) = Some ''HIT''
          \<and> map_get ''X-Cache-Key'' (res_headers r)
              = Some ''GET:/api/climate-data/geojson/ssp245/near-term_2021-2040/cdd''
          \<and> map_get ''ETag'' (res_headers r) = Some ''md5-cdd-features''
          \<and> map_get ''Cache-Control'' (res_headers r) = Some ''public, max-age=2592000'')"
  using middleware_hit [where req = "get_request cdd_url [(''if-none-match'', ''md5-cdd-features'')]"
      and it = "\<lparr>data = JStr ''cdd-features'', etag = ''md5-cdd-features'',
         expiresAt = 2592001000, createdAt = 1000\<rparr>"
      and c = served_cache and now = 5000 and res = fresh_response]
    middleware_hit [where req = "get_request cdd_url [(''if-none-match'', ''md5-stale'')]"
      and it = "\<lparr>data = JStr ''cdd-features'', etag = ''md5-cdd-features'',
         expiresAt = 2592001000, createdAt = 1000\<rparr>"
      and c = served_cache and now = 5000 and res = fresh_response]
    produced_served_cache
  by (simp add: get_request_def cdd_url_def generateKey_def served_cache_eval fresh_response_def
      determineTTL_def ttlSettings_def string_of_int_def string_of_nat.simps digit_char_def)

end
